theory Spec2Isabelle
  imports Complex_Main
begin

section \<open>JavaScript values\<close>

text \<open>
  The engine is JavaScript. A string is a sequence of UTF-16 code units, so that the
  currency glyphs of the source (the euro sign is U+20AC) are single characters, as they
  are for the regular expressions of the source. \<open>js\<close> writes an ASCII literal.

  A number is NaN, an infinity, or a finite value. A finite value is represented by the
  rational it denotes: rounding to binary64 and the sign of zero are not modelled, so
  every statement below is about values and operations that are exact in binary64, or
  does not depend on the arithmetic at all.
\<close>

type_synonym jschar = nat
type_synonym jsstring = "nat list"

definition js :: "string \<Rightarrow> jsstring" where
  "js s = map of_char s"

datatype jsnum = NaN | PosInf | NegInf | Fin rat

text \<open>
  The values a cell, a property or an argument can hold. \<open>JDate\<close> is a Date object with
  its time value in milliseconds since 1970-01-01T00:00Z (\<open>None\<close> is the Invalid Date);
  \<open>JObj\<close> stands for every other object.
\<close>

datatype jsval =
    JUndefined
  | JNull
  | JBool bool
  | JNum jsnum
  | JStr jsstring
  | JDate "int option"
  | JObj

text \<open>An object read in the order of \<open>Object.keys\<close>; the keys are distinct.\<close>

type_synonym jsobject = "(jsstring \<times> jsval) list"

definition get_prop :: "jsobject \<Rightarrow> jsstring \<Rightarrow> jsval" where
  "get_prop row k = (case map_of row k of None \<Rightarrow> JUndefined | Some v \<Rightarrow> v)"

definition isNaN :: "jsnum \<Rightarrow> bool" where
  "isNaN n = (n = NaN)"

definition isFinite :: "jsnum \<Rightarrow> bool" where
  "isFinite n = (case n of Fin _ \<Rightarrow> True | _ \<Rightarrow> False)"

text \<open>\<open>!value\<close>: the falsy values.\<close>

definition falsy :: "jsval \<Rightarrow> bool" where
  "falsy v = (case v of
      JUndefined \<Rightarrow> True
    | JNull \<Rightarrow> True
    | JBool b \<Rightarrow> \<not> b
    | JNum n \<Rightarrow> n = NaN \<or> n = Fin 0
    | JStr s \<Rightarrow> s = []
    | JDate _ \<Rightarrow> False
    | JObj \<Rightarrow> False)"

subsection \<open>Arithmetic on numbers\<close>

definition js_add :: "jsnum \<Rightarrow> jsnum \<Rightarrow> jsnum" where
  "js_add a b = (case (a, b) of
      (NaN, _) \<Rightarrow> NaN
    | (_, NaN) \<Rightarrow> NaN
    | (PosInf, NegInf) \<Rightarrow> NaN
    | (NegInf, PosInf) \<Rightarrow> NaN
    | (PosInf, _) \<Rightarrow> PosInf
    | (_, PosInf) \<Rightarrow> PosInf
    | (NegInf, _) \<Rightarrow> NegInf
    | (_, NegInf) \<Rightarrow> NegInf
    | (Fin x, Fin y) \<Rightarrow> Fin (x + y))"

definition js_mul :: "jsnum \<Rightarrow> jsnum \<Rightarrow> jsnum" where
  "js_mul a b = (case (a, b) of
      (NaN, _) \<Rightarrow> NaN
    | (_, NaN) \<Rightarrow> NaN
    | (Fin x, Fin y) \<Rightarrow> Fin (x * y)
    | (Fin x, PosInf) \<Rightarrow> (if x = 0 then NaN else if 0 < x then PosInf else NegInf)
    | (Fin x, NegInf) \<Rightarrow> (if x = 0 then NaN else if 0 < x then NegInf else PosInf)
    | (PosInf, Fin y) \<Rightarrow> (if y = 0 then NaN else if 0 < y then PosInf else NegInf)
    | (NegInf, Fin y) \<Rightarrow> (if y = 0 then NaN else if 0 < y then NegInf else PosInf)
    | (PosInf, PosInf) \<Rightarrow> PosInf
    | (NegInf, NegInf) \<Rightarrow> PosInf
    | (PosInf, NegInf) \<Rightarrow> NegInf
    | (NegInf, PosInf) \<Rightarrow> NegInf)"

text \<open>Division by a positive count, as \<open>average\<close> divides by \<open>validValues.length\<close>.\<close>

definition js_div_count :: "jsnum \<Rightarrow> nat \<Rightarrow> jsnum" where
  "js_div_count a n = (case a of Fin x \<Rightarrow> Fin (x / of_nat n) | _ \<Rightarrow> a)"

definition js_le :: "jsnum \<Rightarrow> jsnum \<Rightarrow> bool" where
  "js_le a b = (case (a, b) of
      (NaN, _) \<Rightarrow> False
    | (_, NaN) \<Rightarrow> False
    | (NegInf, _) \<Rightarrow> True
    | (_, PosInf) \<Rightarrow> True
    | (PosInf, _) \<Rightarrow> False
    | (_, NegInf) \<Rightarrow> False
    | (Fin x, Fin y) \<Rightarrow> x \<le> y)"

definition js_lt :: "jsnum \<Rightarrow> jsnum \<Rightarrow> bool" where
  "js_lt a b = (js_le a b \<and> a \<noteq> b)"

definition js_min :: "jsnum \<Rightarrow> jsnum \<Rightarrow> jsnum" where
  "js_min a b = (if a = NaN \<or> b = NaN then NaN else if js_le a b then a else b)"

definition js_max :: "jsnum \<Rightarrow> jsnum \<Rightarrow> jsnum" where
  "js_max a b = (if a = NaN \<or> b = NaN then NaN else if js_le a b then b else a)"

subsection \<open>Characters and strings\<close>

definition is_digit :: "jschar \<Rightarrow> bool" where
  "is_digit c = (48 \<le> c \<and> c \<le> 57)"

definition is_alpha :: "jschar \<Rightarrow> bool" where
  "is_alpha c = ((65 \<le> c \<and> c \<le> 90) \<or> (97 \<le> c \<and> c \<le> 122))"

text \<open>
  White space and line terminators: what \<open>\s\<close> matches, what \<open>trim\<close> removes and what
  \<open>parseFloat\<close> skips.
\<close>

definition is_ws :: "jschar \<Rightarrow> bool" where
  "is_ws c = (c \<in> {9, 10, 11, 12, 13, 32, 160, 5760, 8232, 8233, 8239, 8287, 12288, 65279}
      \<or> (8192 \<le> c \<and> c \<le> 8202))"

definition trim :: "jsstring \<Rightarrow> jsstring" where
  "trim s = rev (dropWhile is_ws (rev (dropWhile is_ws s)))"

definition str_includes :: "jsstring \<Rightarrow> jschar \<Rightarrow> bool" where
  "str_includes s c = (c \<in> set s)"

text \<open>\<open>s.replace(/[...]/g, '')\<close> with a character class: the characters of the class go.\<close>

definition remove_class :: "(jschar \<Rightarrow> bool) \<Rightarrow> jsstring \<Rightarrow> jsstring" where
  "remove_class cls s = filter (\<lambda>c. \<not> cls c) s"

subsection \<open>parseFloat on strings\<close>

definition digits_val :: "jsstring \<Rightarrow> nat" where
  "digits_val ds = foldl (\<lambda>a c. 10 * a + (c - 48)) 0 ds"

definition take_sign :: "jsstring \<Rightarrow> bool \<times> jsstring" where
  "take_sign s = (case s of
      [] \<Rightarrow> (False, [])
    | c # r \<Rightarrow> if c = 45 then (True, r) else if c = 43 then (False, r) else (False, s))"

definition exponent_part :: "jsstring \<Rightarrow> int" where
  "exponent_part s = (case s of
      [] \<Rightarrow> 0
    | c # r \<Rightarrow>
        if c = 101 \<or> c = 69 then
          (let (neg, r') = take_sign r; ds = takeWhile is_digit r'
           in if ds = [] then 0
              else if neg then - int (digits_val ds) else int (digits_val ds))
        else 0)"

text \<open>
  \<open>parseFloat\<close> skips leading white space and reads the longest prefix that is a decimal
  literal: a sign, then \<open>Infinity\<close> or digits with an optional fraction and exponent.
  NaN when there is no such prefix.
\<close>

definition parseFloat_str :: "jsstring \<Rightarrow> jsnum" where
  "parseFloat_str s =
     (let (neg, u) = take_sign (dropWhile is_ws s)
      in if take 8 u = js ''Infinity'' then (if neg then NegInf else PosInf)
         else
           let ip = takeWhile is_digit u;
               r1 = dropWhile is_digit u;
               (fp, r2) = (case r1 of
                   [] \<Rightarrow> ([], [])
                 | c # r \<Rightarrow> if c = 46 then (takeWhile is_digit r, dropWhile is_digit r)
                            else ([], r1))
           in if ip = [] \<and> fp = [] then NaN
              else
                let m = of_nat (digits_val (ip @ fp)) *
                        power_int (10 :: rat) (exponent_part r2 - int (length fp))
                in Fin (if neg then - m else m))"

subsection \<open>Regular expressions of the source\<close>

text \<open>
  Every regular expression of the source that starts with \<open>^\<close> is a sequence of
  character classes, each with a repetition range (\<open>None\<close> is no upper bound). An item
  is tried with every admissible number of characters, as a backtracking matcher does.
  \<open>to_end\<close> is the final \<open>$\<close>: without it the expression matches a prefix.
\<close>

type_synonym rx_item = "(jschar \<Rightarrow> bool) \<times> nat \<times> nat option"

fun rx_match :: "bool \<Rightarrow> rx_item list \<Rightarrow> jsstring \<Rightarrow> bool" where
  "rx_match to_end [] s = (to_end \<longrightarrow> s = [])"
| "rx_match to_end ((cls, lo, hi) # ps) s =
     (let n = length (takeWhile cls s);
          top = (case hi of None \<Rightarrow> n | Some h \<Rightarrow> min h n)
      in list_ex (\<lambda>k. rx_match to_end ps (drop k s)) [lo ..< Suc top])"

definition rx_lit :: "jschar \<Rightarrow> rx_item" where
  "rx_lit c = ((\<lambda>x. x = c), 1, Some 1)"

definition rx_digits :: "nat \<Rightarrow> nat \<Rightarrow> rx_item" where
  "rx_digits lo hi = (is_digit, lo, Some hi)"

section \<open>The host: built-ins and the date library\<close>

text \<open>
  What the engine takes from its host is a parameter of the model: the conversion of a
  number and of a Date to a string, \<open>String.prototype.toLowerCase\<close>, the parsers
  \<open>parseISO\<close> (date-fns) and \<open>new Date(string)\<close>, which give a time value or the
  Invalid Date, and the evaluation \<open>Function('"use strict"; return (' + e + ')')()\<close> of
  an expression text (\<open>None\<close> when it throws; the texts that are evaluated are recorded
  where the call is made). The local time zone is a constant offset
  \<open>tzOffset\<close> from UTC in milliseconds (local time = UTC + offset): daylight saving
  time is not modelled.
\<close>

record host =
  tzOffset :: int
  num_toString :: "jsnum \<Rightarrow> jsstring"
  date_toString :: "int option \<Rightarrow> jsstring"
  toLowerCase :: "jsstring \<Rightarrow> jsstring"
  parseISO :: "jsstring \<Rightarrow> int option"
  Date_parse :: "jsstring \<Rightarrow> int option"
  run_expr :: "jsstring \<Rightarrow> jsval option"

text \<open>\<open>String(value)\<close>.\<close>

definition String_of :: "host \<Rightarrow> jsval \<Rightarrow> jsstring" where
  "String_of h v = (case v of
      JUndefined \<Rightarrow> js ''undefined''
    | JNull \<Rightarrow> js ''null''
    | JBool b \<Rightarrow> (if b then js ''true'' else js ''false'')
    | JNum n \<Rightarrow> num_toString h n
    | JStr s \<Rightarrow> s
    | JDate t \<Rightarrow> date_toString h t
    | JObj \<Rightarrow> js ''[object Object]'')"

text \<open>\<open>parseFloat(value)\<close> converts its argument to a string first.\<close>

definition parseFloat :: "host \<Rightarrow> jsval \<Rightarrow> jsnum" where
  "parseFloat h v = parseFloat_str (String_of h v)"

subsection \<open>Calendar arithmetic of Date\<close>

definition msPerDay :: int where
  "msPerDay = 86400000"

definition DayFromYear :: "int \<Rightarrow> int" where
  "DayFromYear y = 365 * (y - 1970) + (y - 1969) div 4 - (y - 1901) div 100 + (y - 1601) div 400"

definition InLeapYear :: "int \<Rightarrow> bool" where
  "InLeapYear y = (y mod 4 = 0 \<and> (y mod 100 \<noteq> 0 \<or> y mod 400 = 0))"

text \<open>
  The year of a day number is the largest \<open>y\<close> with \<open>DayFromYear y \<le> d\<close>. It is searched
  downwards from a year that is not before it; the fuel reaches a year that is not
  after it.
\<close>

fun year_search :: "nat \<Rightarrow> int \<Rightarrow> int \<Rightarrow> int" where
  "year_search 0 d y = y"
| "year_search (Suc n) d y = (if DayFromYear y \<le> d then y else year_search n d (y - 1))"

definition YearFromDay :: "int \<Rightarrow> int" where
  "YearFromDay d =
     (let hi = 1970 + (if 0 \<le> d then d div 365 else d div 366) + 1;
          lo = 1970 + (if 0 \<le> d then d div 366 else d div 365) - 1
      in year_search (nat (hi - lo)) d hi)"

definition month_starts :: "bool \<Rightarrow> int list" where
  "month_starts leap = (let l = (if leap then 1 else 0) in
     [0, 31, 59 + l, 90 + l, 120 + l, 151 + l, 181 + l, 212 + l, 243 + l, 273 + l, 304 + l, 334 + l])"

definition DayWithinYear :: "int \<Rightarrow> int" where
  "DayWithinYear d = d - DayFromYear (YearFromDay d)"

text \<open>The month of a day number, from 0 as \<open>getMonth\<close> counts, and the day of the month.\<close>

definition MonthFromDay :: "int \<Rightarrow> nat" where
  "MonthFromDay d =
     length (filter (\<lambda>s. s \<le> DayWithinYear d) (tl (month_starts (InLeapYear (YearFromDay d)))))"

definition DateFromDay :: "int \<Rightarrow> nat" where
  "DateFromDay d =
     nat (DayWithinYear d - month_starts (InLeapYear (YearFromDay d)) ! MonthFromDay d + 1)"

definition MakeDay :: "int \<Rightarrow> nat \<Rightarrow> int \<Rightarrow> int" where
  "MakeDay y m dt = DayFromYear y + month_starts (InLeapYear y) ! m + dt - 1"

text \<open>\<open>new Date(number)\<close>: the time value is clipped to the range of Date and truncated.\<close>

definition Date_of_num :: "jsnum \<Rightarrow> int option" where
  "Date_of_num n = (case n of
      Fin q \<Rightarrow> if \<bar>q\<bar> \<le> 8640000000000000
               then Some (if 0 \<le> q then \<lfloor>q\<rfloor> else \<lceil>q\<rceil>) else None
    | _ \<Rightarrow> None)"

text \<open>\<open>new Date(y, m, d)\<close>: midnight of a local day, for a year outside 0..99.\<close>

definition Date_local :: "host \<Rightarrow> int \<Rightarrow> nat \<Rightarrow> int \<Rightarrow> int option" where
  "Date_local h y m dt = Date_of_num (Fin (of_int (MakeDay y m dt * msPerDay - tzOffset h)))"

definition getTime :: "int option \<Rightarrow> jsnum" where
  "getTime t = (case t of None \<Rightarrow> NaN | Some x \<Rightarrow> Fin (of_int x))"

definition local_day :: "host \<Rightarrow> int \<Rightarrow> int" where
  "local_day h t = (t + tzOffset h) div msPerDay"

definition getFullYear :: "host \<Rightarrow> int \<Rightarrow> int" where
  "getFullYear h t = YearFromDay (local_day h t)"

definition getMonth :: "host \<Rightarrow> int \<Rightarrow> nat" where
  "getMonth h t = MonthFromDay (local_day h t)"

definition getDate :: "host \<Rightarrow> int \<Rightarrow> nat" where
  "getDate h t = DateFromDay (local_day h t)"

subsection \<open>date-fns\<close>

text \<open>
  The functions of date-fns the engine calls, on the time value of a valid Date.
  \<open>startOfDay\<close> sets the local hours to zero, \<open>startOfMonth\<close> also sets the day of the
  month to 1. In \<open>format\<close>, \<open>yyyy\<close> is the year of the era (year 0 and before count
  backwards from 1: \<open>1 - year\<close>) with at least four digits, \<open>MM\<close> and \<open>dd\<close> have two
  digits, \<open>MMM\<close> is the English abbreviation and \<open>d\<close> has no padding.
\<close>

definition startOfDay :: "host \<Rightarrow> int \<Rightarrow> int" where
  "startOfDay h t = local_day h t * msPerDay - tzOffset h"

definition startOfMonth :: "host \<Rightarrow> int \<Rightarrow> int" where
  "startOfMonth h t = MakeDay (getFullYear h t) (getMonth h t) 1 * msPerDay - tzOffset h"

definition getYear :: "host \<Rightarrow> int \<Rightarrow> int" where
  "getYear h t = getFullYear h t"

definition getQuarter :: "host \<Rightarrow> int \<Rightarrow> nat" where
  "getQuarter h t = getMonth h t div 3 + 1"

fun dec :: "nat \<Rightarrow> jsstring" where
  "dec n = (if n < 10 then [48 + n] else dec (n div 10) @ [48 + n mod 10])"

declare dec.simps [simp del]

definition addLeadingZeros :: "nat \<Rightarrow> nat \<Rightarrow> jsstring" where
  "addLeadingZeros n len = replicate (len - length (dec n)) 48 @ dec n"

text \<open>A number that is an integer, in a template literal.\<close>

definition int_toString :: "int \<Rightarrow> jsstring" where
  "int_toString i = (if i < 0 then 45 # dec (nat (- i)) else dec (nat i))"

definition fmt_yyyy :: "host \<Rightarrow> int \<Rightarrow> jsstring" where
  "fmt_yyyy h t =
     (let signedYear = getFullYear h t;
          year = (if 0 < signedYear then signedYear else 1 - signedYear)
      in addLeadingZeros (nat year) 4)"

definition fmt_MM :: "host \<Rightarrow> int \<Rightarrow> jsstring" where
  "fmt_MM h t = addLeadingZeros (getMonth h t + 1) 2"

definition fmt_dd :: "host \<Rightarrow> int \<Rightarrow> jsstring" where
  "fmt_dd h t = addLeadingZeros (getDate h t) 2"

definition fmt_MMM :: "host \<Rightarrow> int \<Rightarrow> jsstring" where
  "fmt_MMM h t = [js ''Jan'', js ''Feb'', js ''Mar'', js ''Apr'', js ''May'', js ''Jun'',
      js ''Jul'', js ''Aug'', js ''Sep'', js ''Oct'', js ''Nov'', js ''Dec''] ! getMonth h t"

definition format_yyyy_MM_dd :: "host \<Rightarrow> int \<Rightarrow> jsstring" where
  "format_yyyy_MM_dd h t = fmt_yyyy h t @ [45] @ fmt_MM h t @ [45] @ fmt_dd h t"

definition format_yyyy_MM :: "host \<Rightarrow> int \<Rightarrow> jsstring" where
  "format_yyyy_MM h t = fmt_yyyy h t @ [45] @ fmt_MM h t"

definition format_MMM_d_yyyy :: "host \<Rightarrow> int \<Rightarrow> jsstring" where
  "format_MMM_d_yyyy h t = fmt_MMM h t @ [32] @ dec (getDate h t) @ [44, 32] @ fmt_yyyy h t"

definition format_MMM_yyyy :: "host \<Rightarrow> int \<Rightarrow> jsstring" where
  "format_MMM_yyyy h t = fmt_MMM h t @ [32] @ fmt_yyyy h t"

section \<open>The period aggregator: numeric parsing and reduction\<close>

text \<open>The class \<open>[$,\<euro>\<pounds>%]\<close> of \<open>parseNumericValue\<close>: dollar, comma, euro, pound, percent.\<close>

definition strip_class :: "jschar \<Rightarrow> bool" where
  "strip_class c = (c = 36 \<or> c = 44 \<or> c = 8364 \<or> c = 163 \<or> c = 37)"

text \<open>\<open>parseNumericValue\<close>: a number or \<open>null\<close>.\<close>

definition parseNumericValue :: "jsval \<Rightarrow> jsval" where
  "parseNumericValue v = (case v of
      JNum n \<Rightarrow> if \<not> isNaN n then JNum n else JNull
    | JStr s \<Rightarrow>
        (let cleaned = trim (remove_class strip_class s);
             parsed = parseFloat_str cleaned
         in if isNaN parsed then JNull else JNum parsed)
    | _ \<Rightarrow> JNull)"

text \<open>\<open>aggregateValues\<close>: the aggregation type is a string; an unknown one sums.\<close>

definition valid_number :: "jsval \<Rightarrow> bool" where
  "valid_number v = (case v of JNum n \<Rightarrow> \<not> isNaN n | _ \<Rightarrow> False)"

definition num_of :: "jsval \<Rightarrow> jsnum" where
  "num_of v = (case v of JNum n \<Rightarrow> n | _ \<Rightarrow> NaN)"

definition aggregateValues :: "jsval list \<Rightarrow> jsstring \<Rightarrow> jsnum" where
  "aggregateValues vals aggregationType =
     (if vals = [] then Fin 0
      else
        let validValues = map num_of (filter valid_number vals)
        in if validValues = [] then Fin 0
           else if aggregationType = js ''sum'' then foldl js_add (Fin 0) validValues
           else if aggregationType = js ''average''
             then js_div_count (foldl js_add (Fin 0) validValues) (length validValues)
           else if aggregationType = js ''count'' then Fin (of_nat (length validValues))
           else if aggregationType = js ''min'' then foldl js_min PosInf validValues
           else if aggregationType = js ''max'' then foldl js_max NegInf validValues
           else foldl js_add (Fin 0) validValues)"

section \<open>The period aggregator: dates and periods\<close>

text \<open>The three anchored patterns \<open>formats\<close> of \<open>parseDate\<close>.\<close>

definition formats :: "rx_item list list" where
  "formats =
     [[rx_digits 1 2, rx_lit 47, rx_digits 1 2, rx_lit 47, rx_digits 4 4],
      [rx_digits 4 4, rx_lit 45, rx_digits 1 2, rx_lit 45, rx_digits 1 2],
      [rx_digits 1 2, rx_lit 45, rx_digits 1 2, rx_lit 45, rx_digits 4 4]]"

text \<open>The loop over \<open>formats\<close>: a match is given to \<open>new Date(value)\<close>.\<close>

fun try_formats :: "host \<Rightarrow> jsstring \<Rightarrow> rx_item list list \<Rightarrow> int option" where
  "try_formats h s [] = None"
| "try_formats h s (f # fs) =
     (if rx_match True f s
      then (case Date_parse h s of Some t \<Rightarrow> Some t | None \<Rightarrow> try_formats h s fs)
      else try_formats h s fs)"

text \<open>\<open>parseDate\<close>: the time value of the parsed Date, \<open>None\<close> for \<open>null\<close>.\<close>

definition parseDate :: "host \<Rightarrow> jsval \<Rightarrow> int option" where
  "parseDate h v =
     (if falsy v then None
      else case v of
          JDate t \<Rightarrow> t
        | JNum n \<Rightarrow>
            (let excelEpoch = Date_local h 1899 11 30;
                 millisecondsPerDay = Fin (24 * 60 * 60 * 1000)
             in Date_of_num (js_add (getTime excelEpoch) (js_mul n millisecondsPerDay)))
        | JStr s \<Rightarrow>
            (case parseISO h s of
                Some t \<Rightarrow> Some t
              | None \<Rightarrow>
                  (case try_formats h s formats of
                      Some t \<Rightarrow> Some t
                    | None \<Rightarrow> Date_parse h s))
        | _ \<Rightarrow> None)"

definition getPeriodKey :: "host \<Rightarrow> int \<Rightarrow> jsstring \<Rightarrow> jsstring" where
  "getPeriodKey h d granularity =
     (if granularity = js ''daily'' then format_yyyy_MM_dd h (startOfDay h d)
      else if granularity = js ''monthly'' then format_yyyy_MM h (startOfMonth h d)
      else if granularity = js ''quarterly''
        then int_toString (getYear h d) @ js ''-Q'' @ dec (getQuarter h d)
      else format_yyyy_MM_dd h (startOfDay h d))"

text \<open>\<open>periodKey.replace('-', ' ')\<close>: the first hyphen only.\<close>

fun replace_first :: "jschar \<Rightarrow> jschar \<Rightarrow> jsstring \<Rightarrow> jsstring" where
  "replace_first a b [] = []"
| "replace_first a b (c # cs) = (if c = a then b # cs else c # replace_first a b cs)"

text \<open>\<open>getPeriodLabel\<close>: \<open>format\<close> throws on the Invalid Date, and the key is the label.\<close>

definition getPeriodLabel :: "host \<Rightarrow> jsstring \<Rightarrow> jsstring \<Rightarrow> jsstring" where
  "getPeriodLabel h periodKey granularity =
     (if granularity = js ''daily''
        then (case parseISO h periodKey of
                 Some t \<Rightarrow> format_MMM_d_yyyy h t | None \<Rightarrow> periodKey)
      else if granularity = js ''monthly''
        then (case parseISO h (periodKey @ js ''-01'') of
                 Some t \<Rightarrow> format_MMM_yyyy h t | None \<Rightarrow> periodKey)
      else if granularity = js ''quarterly'' then replace_first 45 32 periodKey
      else periodKey)"

text \<open>
  A metric descriptor: the aggregator reads its field and its aggregation type. The
  column mapping of the aggregator gives a column name to a field.
\<close>

record metric =
  field :: jsstring
  aggregationType :: jsstring

text \<open>An entry of the Map \<open>groupedData\<close>; the Map keeps the order of first insertion.\<close>

record period =
  periodKey :: jsstring
  date :: int
  rows :: "jsobject list"

fun group_add :: "period list \<Rightarrow> jsstring \<Rightarrow> int \<Rightarrow> jsobject \<Rightarrow> period list" where
  "group_add [] key d row = [\<lparr>periodKey = key, date = d, rows = [row]\<rparr>]"
| "group_add (p # ps) key d row =
     (if periodKey p = key then p\<lparr>rows := rows p @ [row]\<rparr> # ps
      else p # group_add ps key d row)"

definition group_step ::
  "host \<Rightarrow> jsstring \<Rightarrow> jsstring \<Rightarrow> period list \<Rightarrow> jsobject \<Rightarrow> period list" where
  "group_step h dateColumn granularity groupedData row =
     (case parseDate h (get_prop row dateColumn) of
         None \<Rightarrow> groupedData
       | Some parsedDate \<Rightarrow>
           group_add groupedData (getPeriodKey h parsedDate granularity) parsedDate row)"

definition groupRows :: "host \<Rightarrow> jsstring \<Rightarrow> jsstring \<Rightarrow> jsobject list \<Rightarrow> period list" where
  "groupRows h dateColumn granularity rawData =
     foldl (group_step h dateColumn granularity) [] rawData"

text \<open>
  An aggregated row is an object: the four fixed properties, then one assignment
  \<open>aggregatedRow[metric.field] = ...\<close> for each metric, in order.
\<close>

text \<open>\<open>columnMapping[metric.field] || metric.field\<close>.\<close>

definition metric_column :: "(jsstring \<rightharpoonup> jsstring) \<Rightarrow> metric \<Rightarrow> jsstring" where
  "metric_column columnMapping m =
     (case columnMapping (field m) of
         None \<Rightarrow> field m
       | Some c \<Rightarrow> if c = [] then field m else c)"

definition metric_values :: "(jsstring \<rightharpoonup> jsstring) \<Rightarrow> period \<Rightarrow> metric \<Rightarrow> jsval list" where
  "metric_values columnMapping p m =
     (let columnName = metric_column columnMapping m
      in filter (\<lambda>v. v \<noteq> JNull)
           (map (\<lambda>row. parseNumericValue (get_prop row columnName)) (rows p)))"

definition aggregateRow ::
  "host \<Rightarrow> (jsstring \<rightharpoonup> jsstring) \<Rightarrow> jsstring \<Rightarrow> metric list \<Rightarrow> period
     \<Rightarrow> (jsstring \<rightharpoonup> jsval)" where
  "aggregateRow h columnMapping granularity metrics p =
     foldl (\<lambda>aggregatedRow m.
         aggregatedRow(field m \<mapsto>
           JNum (aggregateValues (metric_values columnMapping p m) (aggregationType m))))
       [js ''periodKey'' \<mapsto> JStr (periodKey p),
        js ''label'' \<mapsto> JStr (getPeriodLabel h (periodKey p) granularity),
        js ''date'' \<mapsto> JDate (Some (date p)),
        js ''rowCount'' \<mapsto> JNum (Fin (of_nat (length (rows p))))]
       metrics"

text \<open>\<open>aggregatedData\<close> of \<open>useDataAggregator\<close>; the sort of an array is stable.\<close>

definition aggregatedData ::
  "host \<Rightarrow> jsobject list \<Rightarrow> (jsstring \<rightharpoonup> jsstring) \<Rightarrow> jsstring \<Rightarrow> metric list
     \<Rightarrow> (jsstring \<rightharpoonup> jsval) list" where
  "aggregatedData h rawData columnMapping granularity metrics =
     (case columnMapping (js ''date'') of
         None \<Rightarrow> []
       | Some dateColumn \<Rightarrow>
           if rawData = [] \<or> dateColumn = [] then []
           else
             let groupedData = groupRows h dateColumn granularity rawData;
                 sortedPeriods = sort_key date groupedData
             in map (aggregateRow h columnMapping granularity metrics) sortedPeriods)"

section \<open>The formula evaluator\<close>

text \<open>
  \<open>formula.match(/\{([^}]+)\}/g)\<close>: the matches from left to right, without overlap. A
  match is an opening brace, at least one character other than the closing brace, and
  the closing brace (125).
\<close>

function columnRefs :: "jsstring \<Rightarrow> jsstring list" where
  "columnRefs [] = []"
| "columnRefs (c # cs) =
     (let body = takeWhile (\<lambda>x. x \<noteq> 125) cs;
          rest = dropWhile (\<lambda>x. x \<noteq> 125) cs
      in if c = 123 \<and> body \<noteq> [] \<and> rest \<noteq> []
         then (c # body @ [125]) # columnRefs (tl rest)
         else columnRefs cs)"
  by pat_completeness auto
termination
  by (relation "measure length")
    (auto simp: less_Suc_eq_le intro!: le_trans [OF diff_le_self length_dropWhile_le])

text \<open>
  \<open>expression.split(ref).join(text)\<close>: every occurrence of \<open>ref\<close>, from the left, is
  replaced. A reference is never empty.
\<close>

function replace_all :: "jsstring \<Rightarrow> jsstring \<Rightarrow> jsstring \<Rightarrow> jsstring" where
  "replace_all ref repl [] = []"
| "replace_all ref repl (c # cs) =
     (if ref \<noteq> [] \<and> take (length ref) (c # cs) = ref
      then repl @ replace_all ref repl (drop (length ref) (c # cs))
      else c # replace_all ref repl cs)"
  by pat_completeness auto
termination
  by (relation "measure (\<lambda>(ref, repl, s). length s)") auto

text \<open>
  An entry of the mapping the evaluator receives: \<open>undefined\<close>, a bare column name, or
  an object whose \<open>column\<close> and \<open>label\<close> may be missing.
\<close>

datatype config =
    CfgUndefined
  | CfgString jsstring
  | CfgObject "jsstring option" "jsstring option"

definition config_column :: "config \<Rightarrow> jsstring option" where
  "config_column c = (case c of CfgObject col lbl \<Rightarrow> col | _ \<Rightarrow> None)"

definition config_label :: "config \<Rightarrow> jsstring option" where
  "config_label c = (case c of CfgObject col lbl \<Rightarrow> lbl | _ \<Rightarrow> None)"

definition has_own :: "jsobject \<Rightarrow> jsstring \<Rightarrow> bool" where
  "has_own row k = (map_of row k \<noteq> None)"

text \<open>
  Steps 1 and 2 of the loop body: the exact key, otherwise the first key of the row
  that is equal in lower case. \<open>None\<close> is \<open>value === null\<close>.
\<close>

definition lookup_row :: "host \<Rightarrow> jsobject \<Rightarrow> jsstring \<Rightarrow> jsnum option" where
  "lookup_row h row columnName =
     (if has_own row columnName then Some (parseFloat h (get_prop row columnName))
      else case find (\<lambda>key. toLowerCase h key = toLowerCase h columnName) (map fst row) of
          Some key \<Rightarrow> Some (parseFloat h (get_prop row key))
        | None \<Rightarrow> None)"

text \<open>Step 3: the first entry of the mapping that matches ends the loop.\<close>

definition lookup_mapping ::
  "host \<Rightarrow> jsobject \<Rightarrow> (jsstring \<times> config) list \<Rightarrow> jsstring \<Rightarrow> jsnum option" where
  "lookup_mapping h row columnMapping columnName =
     (case find (\<lambda>(fld, cfg). config_column cfg = Some columnName
                   \<or> config_label cfg = Some columnName \<or> fld = columnName) columnMapping of
         None \<Rightarrow> None
       | Some (fld, cfg) \<Rightarrow>
           (let actualColumn = (case config_column cfg of
                   None \<Rightarrow> columnName
                 | Some c \<Rightarrow> if c = [] then columnName else c)
            in if has_own row actualColumn
               then Some (parseFloat h (get_prop row actualColumn)) else None))"

definition lookupValue ::
  "host \<Rightarrow> jsobject \<Rightarrow> (jsstring \<times> config) list \<Rightarrow> jsstring \<Rightarrow> jsnum option" where
  "lookupValue h row columnMapping columnName =
     (case lookup_row h row columnName of
         Some v \<Rightarrow> Some v
       | None \<Rightarrow> lookup_mapping h row columnMapping columnName)"

text \<open>
  The loop over the references: \<open>None\<close> when the function returns \<open>null\<close> from inside
  the loop. A row is made of cells, so a column named \<open>hasOwnProperty\<close> hides the method
  the loop calls: the call throws, and the \<open>catch\<close> returns \<open>null\<close>.
\<close>

fun substitute ::
  "host \<Rightarrow> jsobject \<Rightarrow> (jsstring \<times> config) list \<Rightarrow> jsstring list \<Rightarrow> jsstring
     \<Rightarrow> jsstring option" where
  "substitute h row columnMapping [] expression = Some expression"
| "substitute h row columnMapping (ref # refs) expression =
     (if has_own row (js ''hasOwnProperty'') then None
      else case lookupValue h row columnMapping (trim (butlast (tl ref))) of
          None \<Rightarrow> None
        | Some v \<Rightarrow>
            if isNaN v then None
            else substitute h row columnMapping refs
                   (replace_all ref (num_toString h v) expression))"

text \<open>The class of \<open>/^[\d\s+\-*/().]+$/\<close>.\<close>

definition formula_char :: "jschar \<Rightarrow> bool" where
  "formula_char c = (is_digit c \<or> is_ws c \<or> c = 43 \<or> c = 45 \<or> c = 42 \<or> c = 47
      \<or> c = 40 \<or> c = 41 \<or> c = 46)"

definition whitelist_test :: "jsstring \<Rightarrow> bool" where
  "whitelist_test expression = rx_match True [(formula_char, 1, None)] expression"

text \<open>
  \<open>evaluateFormula\<close>, for a formula that is a string. The call
  \<open>Function(`"use strict"; return (${expression})`)()\<close> is the one effect of the function
  that matters here: the run returns the value of the function, a finite number or
  \<open>null\<close>, together with the expressions that were handed to \<open>Function\<close>, in the order
  of the calls. The test of the regular expression comes before the call, and the
  \<open>return null\<close> of a failed test leaves the function without a call.
\<close>

definition evaluateFormula_run ::
  "host \<Rightarrow> jsstring \<Rightarrow> jsobject \<Rightarrow> (jsstring \<times> config) list \<Rightarrow> jsval \<times> jsstring list" where
  "evaluateFormula_run h formula row columnMapping =
     (if formula = [] then (JNull, [])
      else case substitute h row columnMapping (columnRefs formula) formula of
          None \<Rightarrow> (JNull, [])
        | Some expression \<Rightarrow>
            (if \<not> whitelist_test expression then (JNull, [])
             else (case run_expr h expression of
                 None \<Rightarrow> (JNull, [expression])
               | Some result \<Rightarrow>
                   (case result of
                       JNum n \<Rightarrow> (if \<not> isNaN n \<and> isFinite n then JNum n else JNull, [expression])
                     | _ \<Rightarrow> (JNull, [expression])))))"

text \<open>The value \<open>evaluateFormula\<close> returns, and the expressions it hands to \<open>Function\<close>.\<close>

definition evaluateFormula ::
  "host \<Rightarrow> jsstring \<Rightarrow> jsobject \<Rightarrow> (jsstring \<times> config) list \<Rightarrow> jsval" where
  "evaluateFormula h formula row columnMapping =
     fst (evaluateFormula_run h formula row columnMapping)"

definition evaluated :: "host \<Rightarrow> jsstring \<Rightarrow> jsobject \<Rightarrow> (jsstring \<times> config) list \<Rightarrow> jsstring list" where
  "evaluated h formula row columnMapping =
     snd (evaluateFormula_run h formula row columnMapping)"

section \<open>The column type detector\<close>

datatype column_type = TDate | TNumber | TPercentage | TCurrency | TText

record counts =
  dateCount :: nat
  numberCount :: nat
  percentCount :: nat
  currencyCount :: nat

text \<open>The class \<open>[$\<euro>\<pounds>\<yen>]\<close>: dollar, euro, pound, yen.\<close>

definition currency_class :: "jschar \<Rightarrow> bool" where
  "currency_class c = (c = 36 \<or> c = 8364 \<or> c = 163 \<or> c = 165)"

definition datePatterns :: "rx_item list list" where
  "datePatterns =
     [[rx_digits 4 4, rx_lit 45, rx_digits 1 2, rx_lit 45, rx_digits 1 2],
      [rx_digits 1 2, rx_lit 47, rx_digits 1 2, rx_lit 47, rx_digits 2 4],
      [rx_digits 1 2, rx_lit 45, rx_digits 1 2, rx_lit 45, rx_digits 2 4],
      [(is_alpha, 3, Some 3), (is_ws, 1, None), rx_digits 1 2, ((\<lambda>x. x = 44), 0, Some 1),
       (is_ws, 1, None), rx_digits 4 4]]"

definition is_number :: "jsval \<Rightarrow> bool" where
  "is_number v = (case v of JNum _ \<Rightarrow> True | _ \<Rightarrow> False)"

text \<open>The body of the loop over the sample: at most one counter goes up.\<close>

definition count_value :: "host \<Rightarrow> counts \<Rightarrow> jsval \<Rightarrow> counts" where
  "count_value h c v =
     (let strValue = trim (String_of h v)
      in if str_includes strValue 37
            \<or> (is_number v \<and> js_le (Fin 0) (num_of v) \<and> js_le (num_of v) (Fin 1))
         then c\<lparr>percentCount := percentCount c + 1\<rparr>
         else if (strValue \<noteq> [] \<and> currency_class (hd strValue))
              \<or> (strValue \<noteq> [] \<and> currency_class (last strValue))
         then c\<lparr>currencyCount := currencyCount c + 1\<rparr>
         else if is_number v \<and> js_lt (Fin 30000) (num_of v) \<and> js_lt (num_of v) (Fin 50000)
         then c\<lparr>dateCount := dateCount c + 1\<rparr>
         else if list_ex (\<lambda>pattern. rx_match False pattern strValue) datePatterns
         then c\<lparr>dateCount := dateCount c + 1\<rparr>
         else if \<not> isNaN (parseFloat_str (remove_class strip_class strValue))
         then c\<lparr>numberCount := numberCount c + 1\<rparr>
         else c)"


definition sampleValues :: "jsval list \<Rightarrow> jsval list" where
  "sampleValues vals =
     filter (\<lambda>v. v \<noteq> JNull \<and> v \<noteq> JUndefined \<and> v \<noteq> JStr [])
       (take (min (length vals) 20) vals)"

text \<open>\<open>count / total >= threshold\<close>, with the threshold 0.6.\<close>

definition reaches :: "nat \<Rightarrow> nat \<Rightarrow> bool" where
  "reaches n tot = js_le (Fin (6 / 10)) (js_div_count (Fin (of_nat n)) tot)"

definition detectColumnType :: "host \<Rightarrow> jsval list \<Rightarrow> column_type" where
  "detectColumnType h vals =
     (let sample = sampleValues vals
      in if sample = [] then TText
         else
           let c = foldl (count_value h)
                 \<lparr>dateCount = 0, numberCount = 0, percentCount = 0, currencyCount = 0\<rparr> sample;
               tot = length sample
           in if reaches (dateCount c) tot then TDate
              else if reaches (percentCount c) tot then TPercentage
              else if reaches (currencyCount c) tot then TCurrency
              else if reaches (numberCount c) tot then TNumber
              else TText)"

section \<open>A host for the examples\<close>

text \<open>
  The theorems below hold for every host. The examples run on this one: the time zone
  is UTC, and the built-ins are exact on what the examples give them (integers of
  magnitude below \<open>10^21\<close> and decimal fractions, ASCII letters, dates written
  \<open>YYYY-MM-DD\<close>, an expression that is one unsigned integer literal).
\<close>

fun frac_digits :: "nat \<Rightarrow> rat \<Rightarrow> jsstring" where
  "frac_digits 0 r = []"
| "frac_digits (Suc n) r =
     (if r = 0 then []
      else let d = \<lfloor>r * 10\<rfloor> in (48 + nat d) # frac_digits n (r * 10 - of_int d))"

definition number_text :: "jsnum \<Rightarrow> jsstring" where
  "number_text n = (case n of
      NaN \<Rightarrow> js ''NaN''
    | PosInf \<Rightarrow> js ''Infinity''
    | NegInf \<Rightarrow> js ''-Infinity''
    | Fin q \<Rightarrow>
        if of_int \<lfloor>q\<rfloor> = q then int_toString \<lfloor>q\<rfloor>
        else (if q < 0 then [45] else []) @ dec (nat \<lfloor>\<bar>q\<bar>\<rfloor>) @ [46]
             @ frac_digits 17 (\<bar>q\<bar> - of_int \<lfloor>\<bar>q\<bar>\<rfloor>))"

definition ascii_lower :: "jsstring \<Rightarrow> jsstring" where
  "ascii_lower s = map (\<lambda>c. if 65 \<le> c \<and> c \<le> 90 then c + 32 else c) s"

definition days_in_month :: "int \<Rightarrow> nat \<Rightarrow> int" where
  "days_in_month y m =
     (if m = 12 then 31
      else month_starts (InLeapYear y) ! m - month_starts (InLeapYear y) ! (m - 1))"

definition parse_ymd :: "jsstring \<Rightarrow> int option" where
  "parse_ymd s =
     (if rx_match True [rx_digits 4 4, rx_lit 45, rx_digits 2 2, rx_lit 45, rx_digits 2 2] s
      then
        let y = int (digits_val (take 4 s));
            m = digits_val (take 2 (drop 5 s));
            d = int (digits_val (take 2 (drop 8 s)))
        in if 1 \<le> m \<and> m \<le> 12 \<and> 1 \<le> d \<and> d \<le> days_in_month y m
           then Some (MakeDay y (m - 1) d * msPerDay) else None
      else None)"

definition date_text :: "int option \<Rightarrow> jsstring" where
  "date_text t = (case t of
      None \<Rightarrow> js ''Invalid Date''
    | Some x \<Rightarrow>
        (let day = x div msPerDay; ms = nat (x mod msPerDay)
         in [js ''Thu'', js ''Fri'', js ''Sat'', js ''Sun'', js ''Mon'', js ''Tue'', js ''Wed'']
              ! nat (day mod 7)
            @ [32] @ [js ''Jan'', js ''Feb'', js ''Mar'', js ''Apr'', js ''May'', js ''Jun'',
                js ''Jul'', js ''Aug'', js ''Sep'', js ''Oct'', js ''Nov'', js ''Dec'']
              ! MonthFromDay day
            @ [32] @ addLeadingZeros (DateFromDay day) 2
            @ [32] @ (if YearFromDay day < 0 then 45 # addLeadingZeros (nat (- YearFromDay day)) 6
                      else addLeadingZeros (nat (YearFromDay day)) 4)
            @ [32] @ addLeadingZeros (ms div 3600000) 2
            @ [58] @ addLeadingZeros (ms div 60000 mod 60) 2
            @ [58] @ addLeadingZeros (ms div 1000 mod 60) 2
            @ js '' GMT+0000 (Coordinated Universal Time)''))"

definition run_literal :: "jsstring \<Rightarrow> jsval option" where
  "run_literal e =
     (let t = trim e
      in if t \<noteq> [] \<and> list_all is_digit t \<and> (t = [48] \<or> hd t \<noteq> 48)
         then Some (JNum (Fin (of_nat (digits_val t)))) else None)"

definition host_utc :: host where
  "host_utc = \<lparr>
     tzOffset = 0,
     num_toString = number_text,
     date_toString = date_text,
     toLowerCase = ascii_lower,
     parseISO = parse_ymd,
     Date_parse = parse_ymd,
     run_expr = run_literal \<rparr>"

section \<open>Notions of the specification\<close>

text \<open>
  The definitions of this section follow the words of the specification; the theorems
  compare them with the engine.
\<close>

definition is_string :: "jsval \<Rightarrow> bool" where
  "is_string v = (case v of JStr _ \<Rightarrow> True | _ \<Rightarrow> False)"

text \<open>
  The symbols the specification has \<open>parseNumericValue\<close> strip: the currency symbols
  dollar, euro, pound and yen, the comma and the percent sign.
\<close>

definition claimed_strip_class :: "jschar \<Rightarrow> bool" where
  "claimed_strip_class c = (c = 36 \<or> c = 8364 \<or> c = 163 \<or> c = 165 \<or> c = 44 \<or> c = 37)"

text \<open>The period key of a row, when its date parses.\<close>

definition row_key :: "host \<Rightarrow> jsstring \<Rightarrow> jsstring \<Rightarrow> jsobject \<Rightarrow> jsstring option" where
  "row_key h dateColumn granularity row =
     map_option (\<lambda>t. getPeriodKey h t granularity) (parseDate h (get_prop row dateColumn))"


text \<open>The calendar day of a date: local year, month (from 0) and day of the month.\<close>

definition local_ymd :: "host \<Rightarrow> int \<Rightarrow> int \<times> nat \<times> nat" where
  "local_ymd h t = (getFullYear h t, getMonth h t, getDate h t)"


text \<open>
  The characters the specification admits in a substituted expression: digits, the
  operators \<open>+ - * /\<close>, parentheses, the decimal point and white space.
\<close>

definition claimed_formula_char :: "jschar \<Rightarrow> bool" where
  "claimed_formula_char c =
     (c \<in> {48..57} \<or> c \<in> {43, 45, 42, 47} \<or> c \<in> {40, 41} \<or> c = 46 \<or> is_ws c)"

text \<open>
  The third way of resolving a reference: an entry of the mapping matches when its
  column, its label or its field key is the reference text; the column read is the
  entry's, or the reference text when the entry has none.
\<close>

definition mapping_matches :: "jsstring \<Rightarrow> jsstring \<times> config \<Rightarrow> bool" where
  "mapping_matches name entry =
     (config_column (snd entry) = Some name \<or> config_label (snd entry) = Some name
      \<or> fst entry = name)"

definition actual_column :: "config \<Rightarrow> jsstring \<Rightarrow> jsstring" where
  "actual_column cfg name =
     (case config_column cfg of None \<Rightarrow> name | Some c \<Rightarrow> if c = [] then name else c)"

text \<open>
  The classification of a sampled value, in the words of the specification and in its
  order of priority. (a) The value contains a percent sign or is a decimal value in
  [0, 1]: percentage. (b) It has a leading or trailing currency glyph, one of dollar,
  euro, pound and yen: currency. (c) It is a number in the range of the serial numbers of
  spreadsheet dates, between 30000 and 50000, or its text matches one of the textual date
  patterns: date. (d) What remains after stripping the currency symbols, the commas and
  the percent signs parses as a float: number. Otherwise the value has no category. The
  text of a value is its string without the white space around it; the range of the
  serial numbers is read without its ends.
\<close>

definition claimed_currency_glyph :: "jschar \<Rightarrow> bool" where
  "claimed_currency_glyph c = (c \<in> {36, 8364, 163, 165})"

definition in_unit_interval :: "jsval \<Rightarrow> bool" where
  "in_unit_interval v = (case v of JNum (Fin q) \<Rightarrow> 0 \<le> q \<and> q \<le> 1 | _ \<Rightarrow> False)"

definition in_serial_range :: "jsval \<Rightarrow> bool" where
  "in_serial_range v = (case v of JNum (Fin q) \<Rightarrow> 30000 < q \<and> q < 50000 | _ \<Rightarrow> False)"

text \<open>
  The textual date patterns, each a prefix of the text: ISO (four digits, a hyphen, one
  or two digits, a hyphen, one or two digits), slash-separated and dash-separated (one
  or two digits, the separator, one or two digits, the separator, two to four digits),
  and \<open>Mon D, YYYY\<close> (three letters, white space, one or two digits, an optional comma,
  white space, four digits).
\<close>

definition claimed_iso_pattern :: "rx_item list" where
  "claimed_iso_pattern = [rx_digits 4 4, rx_lit 45, rx_digits 1 2, rx_lit 45, rx_digits 1 2]"

definition claimed_separated_pattern :: "jschar \<Rightarrow> rx_item list" where
  "claimed_separated_pattern sep =
     [rx_digits 1 2, rx_lit sep, rx_digits 1 2, rx_lit sep, rx_digits 2 4]"

definition claimed_month_name_pattern :: "rx_item list" where
  "claimed_month_name_pattern =
     [(is_alpha, 3, Some 3), (is_ws, 1, None), rx_digits 1 2, ((\<lambda>c. c = 44), 0, Some 1),
      (is_ws, 1, None), rx_digits 4 4]"

definition claimed_date_text :: "jsstring \<Rightarrow> bool" where
  "claimed_date_text s =
     (rx_match False claimed_iso_pattern s
      \<or> rx_match False (claimed_separated_pattern 47) s
      \<or> rx_match False (claimed_separated_pattern 45) s
      \<or> rx_match False claimed_month_name_pattern s)"

definition claimed_category :: "host \<Rightarrow> jsval \<Rightarrow> column_type option" where
  "claimed_category h v =
     (let s = trim (String_of h v)
      in if 37 \<in> set s \<or> in_unit_interval v then Some TPercentage
         else if s \<noteq> [] \<and> (claimed_currency_glyph (hd s) \<or> claimed_currency_glyph (last s))
         then Some TCurrency
         else if in_serial_range v \<or> claimed_date_text s then Some TDate
         else if \<not> isNaN (parseFloat_str (remove_class claimed_strip_class s)) then Some TNumber
         else None)"

text \<open>
  The match ratio of a category over a sample reaches the threshold of 60%: the values
  of the category are at least three fifths of the sample.
\<close>

definition category_count :: "host \<Rightarrow> jsval list \<Rightarrow> column_type \<Rightarrow> nat" where
  "category_count h sample t = length (filter (\<lambda>v. claimed_category h v = Some t) sample)"

definition at_least_60_percent :: "nat \<Rightarrow> nat \<Rightarrow> bool" where
  "at_least_60_percent n tot = (3 * tot \<le> 5 * n)"

text \<open>
  The type of a column as the specification detects it: the first of date, percentage,
  currency and number whose match ratio reaches the threshold, text otherwise.
\<close>

definition claimed_type :: "host \<Rightarrow> jsval list \<Rightarrow> column_type" where
  "claimed_type h sample =
     (if sample = [] then TText
      else if at_least_60_percent (category_count h sample TDate) (length sample) then TDate
      else if at_least_60_percent (category_count h sample TPercentage) (length sample)
        then TPercentage
      else if at_least_60_percent (category_count h sample TCurrency) (length sample)
        then TCurrency
      else if at_least_60_percent (category_count h sample TNumber) (length sample)
        then TNumber
      else TText)"









text \<open>
  The start of the bucket of a date, as the specification floors it: the start of the
  local day, of the first day of the month, or of the first day of the quarter (what
  \<open>startOfQuarter\<close> of date-fns returns). A granularity that is none of the three is keyed
  by day.
\<close>

definition startOfQuarter :: "host \<Rightarrow> int \<Rightarrow> int" where
  "startOfQuarter h t =
     MakeDay (getFullYear h t) (3 * (getMonth h t div 3)) 1 * msPerDay - tzOffset h"

definition bucket_start :: "host \<Rightarrow> jsstring \<Rightarrow> int \<Rightarrow> int" where
  "bucket_start h g t =
     (if g = js ''monthly'' then startOfMonth h t
      else if g = js ''quarterly'' then startOfQuarter h t
      else startOfDay h t)"

section \<open>Evaluation rules\<close>

text \<open>
  The examples are evaluated by rewriting with the definitions. A \<open>let\<close> is unfolded
  once its argument is a value.
\<close>

lemma year_search_unfold:
  "year_search n d y =
     (if n = 0 then y else if DayFromYear y \<le> d then y else year_search (n - 1) d (y - 1))"
  by (cases n) simp_all

lemma host_utc_fields:
  "tzOffset host_utc = 0" "num_toString host_utc = number_text"
  "date_toString host_utc = date_text" "toLowerCase host_utc = ascii_lower"
  "parseISO host_utc = parse_ymd" "Date_parse host_utc = parse_ymd"
  "run_expr host_utc = run_literal"
  by (simp_all add: host_utc_def)

lemma replicate_unfold:
  "replicate n x = (if n = 0 then [] else x # replicate (n - 1) x)"
  by (cases n) simp_all

lemmas parse_simps = parseNumericValue_def remove_class_def strip_class_def trim_def
  is_ws_def parseFloat_str_def take_sign_def is_digit_def digits_val_def exponent_part_def
  isNaN_def

lemmas date_simps = falsy_def parseDate_def Date_local_def Date_of_num_def MakeDay_def
  DayFromYear_def InLeapYear_def month_starts_def msPerDay_def getTime_def js_add_def js_mul_def
  local_day_def getFullYear_def getMonth_def getDate_def YearFromDay_def year_search_unfold
  MonthFromDay_def DateFromDay_def DayWithinYear_def startOfDay_def startOfMonth_def
  getYear_def getQuarter_def host_utc_fields Let_def

lemmas key_simps = dec.simps replicate_unfold addLeadingZeros_def int_toString_def fmt_yyyy_def
  fmt_MM_def fmt_dd_def format_yyyy_MM_dd_def format_yyyy_MM_def getPeriodKey_def

lemmas aggregate_simps = aggregatedData_def groupRows_def group_step_def get_prop_def
  aggregateRow_def metric_values_def metric_column_def aggregateValues_def valid_number_def
  num_of_def getPeriodLabel_def

lemma evaluateFormula_unfold:
  "evaluateFormula h formula row columnMapping =
     (if formula = [] then JNull
      else case substitute h row columnMapping (columnRefs formula) formula of
          None \<Rightarrow> JNull
        | Some expression \<Rightarrow>
            (if \<not> whitelist_test expression then JNull
             else (case run_expr h expression of
                 None \<Rightarrow> JNull
               | Some result \<Rightarrow>
                   (case result of
                       JNum n \<Rightarrow> if \<not> isNaN n \<and> isFinite n then JNum n else JNull
                     | _ \<Rightarrow> JNull))))"
  by (simp add: evaluateFormula_def evaluateFormula_run_def split: option.splits jsval.splits)

lemma evaluated_unfold:
  "evaluated h formula row columnMapping =
     (if formula = [] then []
      else case substitute h row columnMapping (columnRefs formula) formula of
          None \<Rightarrow> []
        | Some expression \<Rightarrow> if whitelist_test expression then [expression] else [])"
  by (simp add: evaluated_def evaluateFormula_run_def split: option.splits jsval.splits)

section \<open>Numeric parsing\<close>

lemma remove_class_no_yen:
  "165 \<notin> set s \<Longrightarrow> remove_class strip_class s = remove_class claimed_strip_class s"
  unfolding remove_class_def
  by (rule filter_cong) (auto simp: strip_class_def claimed_strip_class_def)

text \<open>
  The class of \<open>parseNumericValue\<close> has no yen sign, although the detector counts a value
  with a yen sign as a currency amount: such a value is not parsed.
\<close>

lemma parseNumericValue_yen: "parseNumericValue (JStr (165 # js ''100'')) = JNull"
  by (simp add: js_def parse_simps)

text \<open>
  Claim C5, as stated, has every non-finite number parsed to \<open>null\<close>. The guard of
  \<open>parseNumericValue\<close> is \<open>!isNaN(value)\<close>: an infinity is returned as it is.
\<close>

theorem parseNumericValue_infinity_counterexample:
  "\<not> isFinite PosInf \<and> parseNumericValue (JNum PosInf) = JNum PosInf
   \<and> parseNumericValue (JNum PosInf) \<noteq> JNull"
  by (simp add: parseNumericValue_def isNaN_def isFinite_def)

text \<open>
  Claim C5, amended: \<open>parseNumericValue\<close> returns every number other than NaN unchanged,
  the infinities too, and \<open>null\<close> for NaN. From a string without a yen sign it removes
  the dollar, euro and pound signs, the commas and the percent signs, trims the rest and
  parses it as a float, with \<open>null\<close> when that is NaN; \<open>$100\<close>, \<open>$250\<close> and \<open>$3,000\<close>
  give 100, 250 and 3000. Every value that is neither a number nor a string gives
  \<open>null\<close>.
\<close>

theorem parseNumericValue_amended:
  "(n \<noteq> NaN \<longrightarrow> parseNumericValue (JNum n) = JNum n)
   \<and> parseNumericValue (JNum NaN) = JNull
   \<and> (165 \<notin> set s \<longrightarrow>
        parseNumericValue (JStr s) =
          (let parsed = parseFloat_str (trim (remove_class claimed_strip_class s))
           in if parsed = NaN then JNull else JNum parsed))
   \<and> parseNumericValue (JStr (js ''$100'')) = JNum (Fin 100)
   \<and> parseNumericValue (JStr (js ''$250'')) = JNum (Fin 250)
   \<and> parseNumericValue (JStr (js ''$3,000'')) = JNum (Fin 3000)
   \<and> (\<not> is_number v \<and> \<not> is_string v \<longrightarrow> parseNumericValue v = JNull)"
proof -
  have numbers: "n \<noteq> NaN \<longrightarrow> parseNumericValue (JNum n) = JNum n"
    by (simp add: parseNumericValue_def isNaN_def)
  have nan: "parseNumericValue (JNum NaN) = JNull"
    by (simp add: parseNumericValue_def isNaN_def)
  have strings: "165 \<notin> set s \<longrightarrow>
        parseNumericValue (JStr s) =
          (let parsed = parseFloat_str (trim (remove_class claimed_strip_class s))
           in if parsed = NaN then JNull else JNum parsed)"
    by (simp add: parseNumericValue_def isNaN_def Let_def remove_class_no_yen)
  have e1: "parseNumericValue (JStr (js ''$100'')) = JNum (Fin 100)"
    by (simp add: js_def parse_simps)
  have e2: "parseNumericValue (JStr (js ''$250'')) = JNum (Fin 250)"
    by (simp add: js_def parse_simps)
  have e3: "parseNumericValue (JStr (js ''$3,000'')) = JNum (Fin 3000)"
    by (simp add: js_def parse_simps)
  have others: "\<not> is_number v \<and> \<not> is_string v \<longrightarrow> parseNumericValue v = JNull"
    by (cases v) (simp_all add: parseNumericValue_def is_number_def is_string_def)
  from numbers nan strings e1 e2 e3 others show ?thesis
    by blast
qed

theorem parseNumericValue_amended_witness:
  "Fin 42 \<noteq> NaN \<and> parseNumericValue (JNum (Fin 42)) = JNum (Fin 42)
   \<and> 165 \<notin> set (js ''12%'') \<and> parseNumericValue (JStr (js ''12%'')) = JNum (Fin 12)
   \<and> \<not> is_number (JBool True) \<and> \<not> is_string (JBool True)
   \<and> parseNumericValue (JBool True) = JNull"
proof -
  have a: "Fin 42 \<noteq> NaN" by simp
  have b: "165 \<notin> set (js ''12%'')" by (simp add: js_def)
  have c: "\<not> is_number (JBool True) \<and> \<not> is_string (JBool True)"
    by (simp add: is_number_def is_string_def)
  have d: "(let parsed = parseFloat_str (trim (remove_class claimed_strip_class (js ''12%'')))
           in if parsed = NaN then JNull else JNum parsed) = JNum (Fin 12)"
    by (simp add: js_def claimed_strip_class_def parse_simps)
  from parseNumericValue_amended [of "Fin 42" "js ''12%''" "JBool True"] a b c d
  show ?thesis by simp
qed

subsection \<open>Reduction\<close>

lemma aggregateValues_no_valid:
  "\<forall>v\<in>set vals. \<not> valid_number v \<Longrightarrow> aggregateValues vals t = Fin 0"
  by (simp add: aggregateValues_def filter_empty_conv)

lemma metric_values_all_null:
  "\<forall>row\<in>set (rows p). parseNumericValue (get_prop row (metric_column cm m)) = JNull
     \<Longrightarrow> metric_values cm p m = []"
  by (simp add: metric_values_def filter_empty_conv)

lemma metric_column_field:
  "field m' = field m \<Longrightarrow> metric_column cm m' = metric_column cm m"
  by (auto simp: metric_column_def split: option.splits)

lemma foldl_assign:
  "foldl (\<lambda>obj m. obj(key m \<mapsto> val m)) base ms k =
     (case find (\<lambda>m. key m = k) (rev ms) of None \<Rightarrow> base k | Some m \<Rightarrow> Some (val m))"
  by (induction ms rule: rev_induct) simp_all

lemma find_Some_set: "find P xs = Some x \<Longrightarrow> x \<in> set xs \<and> P x"
  by (induction xs) (auto split: if_splits)

lemma aggregateRow_metric:
  assumes "m \<in> set metrics"
  shows "\<exists>m'\<in>set metrics. field m' = field m \<and>
           aggregateRow h cm g metrics p (field m) =
             Some (JNum (aggregateValues (metric_values cm p m') (aggregationType m')))"
proof -
  from assms have "find (\<lambda>x. field x = field m) (rev metrics) \<noteq> None"
    by (auto simp: find_None_iff)
  then obtain m' where f: "find (\<lambda>x. field x = field m) (rev metrics) = Some m'"
    by auto
  then have "m' \<in> set (rev metrics) \<and> field m' = field m"
    by (rule find_Some_set)
  then have "m' \<in> set metrics" "field m' = field m"
    by simp_all
  moreover have "aggregateRow h cm g metrics p (field m) =
      Some (JNum (aggregateValues (metric_values cm p m') (aggregationType m')))"
    unfolding aggregateRow_def by (simp add: foldl_assign f)
  ultimately show ?thesis by blast
qed

lemma aggregateRow_fixed:
  assumes "k \<notin> field ` set metrics"
  shows "aggregateRow h cm g metrics p k =
     [js ''periodKey'' \<mapsto> JStr (periodKey p),
      js ''label'' \<mapsto> JStr (getPeriodLabel h (periodKey p) g),
      js ''date'' \<mapsto> JDate (Some (date p)),
      js ''rowCount'' \<mapsto> JNum (Fin (of_nat (length (rows p))))] k"
proof -
  from assms have "find (\<lambda>x. field x = k) (rev metrics) = None"
    by (auto simp: find_None_iff)
  then show ?thesis
    unfolding aggregateRow_def by (simp only: foldl_assign option.case)
qed

subsection \<open>Grouping\<close>

lemma group_add_keys:
  "map periodKey (group_add G k d r) =
     (if k \<in> set (map periodKey G) then map periodKey G else map periodKey G @ [k])"
  by (induction G) auto

lemma group_add_member:
  assumes "p' \<in> set (group_add G k d r)"
  shows "(\<exists>p\<in>set G. periodKey p' = periodKey p \<and> date p' = date p
            \<and> (rows p' = rows p \<or> rows p' = rows p @ [r]))
         \<or> (k \<notin> set (map periodKey G) \<and> p' = \<lparr>periodKey = k, date = d, rows = [r]\<rparr>)"
  using assms by (induction G) (auto split: if_splits)


lemma find_snoc:
  "find P (xs @ [x]) = (case find P xs of Some y \<Rightarrow> Some y | None \<Rightarrow> if P x then Some x else None)"
  by (induction xs) auto

lemma groupRows_snoc:
  "groupRows h dc g (xs @ [x]) = group_step h dc g (groupRows h dc g xs) x"
  by (simp add: groupRows_def)

lemma groupRows_keys:
  "distinct (map periodKey (groupRows h dc g xs))
   \<and> set (map periodKey (groupRows h dc g xs)) = {k. \<exists>row\<in>set xs. row_key h dc g row = Some k}"
proof (induction xs rule: rev_induct)
  case Nil
  show ?case by (simp add: groupRows_def)
next
  case (snoc x xs)
  show ?case
  proof (cases "parseDate h (get_prop x dc)")
    case None
    then have "row_key h dc g x = None" by (simp add: row_key_def)
    with None snoc show ?thesis
      by (auto simp: groupRows_snoc group_step_def)
  next
    case (Some t)
    then have "row_key h dc g x = Some (getPeriodKey h t g)" by (simp add: row_key_def)
    with Some snoc show ?thesis
      by (auto simp: groupRows_snoc group_step_def group_add_keys)
  qed
qed


lemma groupRows_first_seen:
  "p \<in> set (groupRows h dc g xs) \<Longrightarrow>
     rows p \<noteq> [] \<and> set (rows p) \<subseteq> set xs \<and>
     (\<exists>row. find (\<lambda>r. row_key h dc g r = Some (periodKey p)) xs = Some row
           \<and> parseDate h (get_prop row dc) = Some (date p))"
proof (induction xs arbitrary: p rule: rev_induct)
  case Nil
  then show ?case by (simp add: groupRows_def)
next
  case (snoc x xs)
  show ?case
  proof (cases "parseDate h (get_prop x dc)")
    case None
    with snoc.prems have "p \<in> set (groupRows h dc g xs)"
      by (simp add: groupRows_snoc group_step_def)
    from snoc.IH [OF this] show ?thesis
      by (auto simp: find_snoc)
  next
    case (Some t)
    let ?k = "getPeriodKey h t g"
    have kx: "row_key h dc g x = Some ?k" using Some by (simp add: row_key_def)
    from snoc.prems Some have "p \<in> set (group_add (groupRows h dc g xs) ?k t x)"
      by (simp add: groupRows_snoc group_step_def)
    from group_add_member [OF this] show ?thesis
    proof
      assume "\<exists>q\<in>set (groupRows h dc g xs). periodKey p = periodKey q \<and> date p = date q
                \<and> (rows p = rows q \<or> rows p = rows q @ [x])"
      then obtain q where q: "q \<in> set (groupRows h dc g xs)" "periodKey p = periodKey q"
          "date p = date q" "rows p = rows q \<or> rows p = rows q @ [x]"
        by blast
      from snoc.IH [OF q(1)] q(2,3,4) show ?thesis
        by (auto simp: find_snoc)
    next
      assume new: "?k \<notin> set (map periodKey (groupRows h dc g xs))
                   \<and> p = \<lparr>periodKey = ?k, date = t, rows = [x]\<rparr>"
      with groupRows_keys [of h dc g xs]
      have "\<not> (\<exists>row\<in>set xs. row_key h dc g row = Some ?k)" by auto
      then have "find (\<lambda>r. row_key h dc g r = Some ?k) xs = None"
        by (auto simp: find_None_iff)
      with new kx Some show ?thesis
        by (simp add: find_snoc)
    qed
  qed
qed


subsection \<open>Sorting the periods\<close>

lemma distinct_map_insort_key:
  "distinct (map f (insort_key g x xs)) \<longleftrightarrow> f x \<notin> f ` set xs \<and> distinct (map f xs)"
  by (induction xs) (auto simp: set_insort_key)

lemma distinct_map_sort_key:
  "distinct (map f (sort_key g xs)) \<longleftrightarrow> distinct (map f xs)"
  by (induction xs) (simp_all add: distinct_map_insort_key)



subsection \<open>The fixed properties of an aggregated row\<close>

lemma aggregateRow_periodKey:
  "js ''periodKey'' \<notin> field ` set metrics \<Longrightarrow>
     aggregateRow h cm g metrics p (js ''periodKey'') = Some (JStr (periodKey p))"
  by (simp add: aggregateRow_fixed js_def)

lemma aggregateRow_date:
  "js ''date'' \<notin> field ` set metrics \<Longrightarrow>
     aggregateRow h cm g metrics p (js ''date'') = Some (JDate (Some (date p)))"
  by (simp add: aggregateRow_fixed js_def)


lemma aggregatedData_unfold:
  "cm (js ''date'') = Some dc \<Longrightarrow> dc \<noteq> [] \<Longrightarrow>
     aggregatedData h rawData cm g metrics =
       map (aggregateRow h cm g metrics) (sort_key date (groupRows h dc g rawData))"
  by (auto simp: aggregatedData_def groupRows_def)

lemma aggregatedData_empty:
  "rawData = [] \<or> cm (js ''date'') = None \<or> cm (js ''date'') = Some [] \<Longrightarrow>
     aggregatedData h rawData cm g metrics = []"
  by (auto simp: aggregatedData_def split: option.splits)

subsection \<open>The key of a day\<close>
















section \<open>The calendar\<close>

subsection \<open>The year of a day\<close>

lemma div_step:
  "0 < c \<Longrightarrow> (a + 1) div c = a div c + (if (a + 1) mod c = 0 then 1 else 0)"
  for a c :: int
proof -
  assume c: "0 < c"
  let ?q = "a div c" and ?r = "a mod c"
  have r: "0 \<le> ?r" "?r < c" using c by simp_all
  have e: "a + 1 = c * ?q + (?r + 1)" by simp
  show ?thesis
  proof (cases "?r + 1 = c")
    case True
    have "c * ?q + (?r + 1) = c * (?q + 1) + 0" unfolding True by (simp add: algebra_simps)
    with e have "a + 1 = c * (?q + 1) + 0" by simp
    from int_div_pos_eq [OF this] int_mod_pos_eq [OF this] c show ?thesis by simp
  next
    case False
    with r have lt: "?r + 1 < c" by simp
    from r have ge: "0 \<le> ?r + 1" by simp
    from int_div_pos_eq [OF e ge lt] int_mod_pos_eq [OF e ge lt] r show ?thesis by simp
  qed
qed

lemma leap_mods:
  "(y - 1968) mod 4 = 0 \<longleftrightarrow> y mod 4 = 0"
  "(y - 1900) mod 100 = 0 \<longleftrightarrow> y mod 100 = 0"
  "(y - 1600) mod 400 = 0 \<longleftrightarrow> y mod 400 = 0" for y :: int
  by (simp_all add: mod_eq_0_iff_dvd dvd_diff_left_iff)

lemma leap_divides:
  "y mod 400 = 0 \<Longrightarrow> y mod 100 = 0" "y mod 100 = 0 \<Longrightarrow> y mod 4 = 0" for y :: int
proof -
  have "(100 :: int) dvd 400" "(4 :: int) dvd 100" by simp_all
  then show "y mod 400 = 0 \<Longrightarrow> y mod 100 = 0" "y mod 100 = 0 \<Longrightarrow> y mod 4 = 0"
    by (auto simp: mod_eq_0_iff_dvd elim: dvd_trans)
qed

lemma DayFromYear_Suc:
  "DayFromYear (y + 1) = DayFromYear y + (if InLeapYear y then 366 else 365)"
proof -
  define A B C where "A = (y - 1969) div 4" and "B = (y - 1901) div 100"
    and "C = (y - 1601) div 400"
  define p q r where "p \<longleftrightarrow> y mod 4 = 0" and "q \<longleftrightarrow> y mod 100 = 0"
    and "r \<longleftrightarrow> y mod 400 = 0"
  have a: "(y - 1968) div 4 = A + (if p then 1 else 0)"
    unfolding A_def p_def using div_step [of 4 "y - 1969"] leap_mods(1) [of y] by simp
  have b: "(y - 1900) div 100 = B + (if q then 1 else 0)"
    unfolding B_def q_def using div_step [of 100 "y - 1901"] leap_mods(2) [of y] by simp
  have c: "(y - 1600) div 400 = C + (if r then 1 else 0)"
    unfolding C_def r_def using div_step [of 400 "y - 1601"] leap_mods(3) [of y] by simp
  have s: "DayFromYear (y + 1) =
      365 * (y - 1969) + (y - 1968) div 4 - (y - 1900) div 100 + (y - 1600) div 400"
    by (simp add: DayFromYear_def)
  have d1: "DayFromYear (y + 1) = 365 * (y - 1969) + (A + (if p then 1 else 0))
      - (B + (if q then 1 else 0)) + (C + (if r then 1 else 0))"
    unfolding s a b c ..
  have d0: "DayFromYear y = 365 * (y - 1970) + A - B + C"
    unfolding DayFromYear_def A_def B_def C_def ..
  have l: "InLeapYear y \<longleftrightarrow> p \<and> (\<not> q \<or> r)"
    unfolding InLeapYear_def p_def q_def r_def ..
  have i: "r \<longrightarrow> q" "q \<longrightarrow> p"
    unfolding p_def q_def r_def using leap_divides [of y] by blast+
  from i show ?thesis
    unfolding d0 d1 l by (cases p; cases q; cases r; simp)
qed

lemma DayFromYear_step:
  "DayFromYear y + 365 \<le> DayFromYear (y + 1)" "DayFromYear (y + 1) \<le> DayFromYear y + 366"
  by (simp_all add: DayFromYear_Suc)

lemma DayFromYear_mono: "y \<le> y' \<Longrightarrow> DayFromYear y \<le> DayFromYear y'"
proof (induction y' rule: int_ge_induct)
  case base
  show ?case by simp
next
  case (step i)
  with DayFromYear_step(1) [of i] show ?case by linarith
qed

lemma DayFromYear_less: "DayFromYear y < DayFromYear y' \<Longrightarrow> y < y'"
  using DayFromYear_mono [of y' y] by (cases "y < y'") auto

lemma DayFromYear_1970: "DayFromYear 1970 = 0"
  by (simp add: DayFromYear_def)

lemma bound_up:
  fixes a b i :: int
  assumes "365 * i \<le> a" "a \<le> 366 * i" "a + 365 \<le> b" "b \<le> a + 366"
  shows "365 * (i + 1) \<le> b \<and> b \<le> 366 * (i + 1)"
  using assms by (simp add: algebra_simps)

lemma bound_down:
  fixes a b i :: int
  assumes "366 * i \<le> b" "b \<le> 365 * i" "a + 365 \<le> b" "b \<le> a + 366"
  shows "366 * (i - 1) \<le> a \<and> a \<le> 365 * (i - 1)"
  using assms by (simp add: algebra_simps)

lemma DayFromYear_after_1970:
  "0 \<le> k \<Longrightarrow> 365 * k \<le> DayFromYear (1970 + k) \<and> DayFromYear (1970 + k) \<le> 366 * k"
proof (induction k rule: int_ge_induct)
  case base
  show ?case by (simp add: DayFromYear_1970)
next
  case (step i)
  have e: "1970 + (i + 1) = 1970 + i + 1" by simp
  from step.IH have "365 * i \<le> DayFromYear (1970 + i)"
      "DayFromYear (1970 + i) \<le> 366 * i" by simp_all
  from bound_up [OF this DayFromYear_step [of "1970 + i"]] show ?case
    unfolding e .
qed

lemma DayFromYear_before_1970:
  "k \<le> 0 \<Longrightarrow> 366 * k \<le> DayFromYear (1970 + k) \<and> DayFromYear (1970 + k) \<le> 365 * k"
proof (induction k rule: int_le_induct)
  case base
  show ?case by (simp add: DayFromYear_1970)
next
  case (step i)
  have e: "1970 + (i - 1) + 1 = 1970 + i" by simp
  from step.IH have "366 * i \<le> DayFromYear (1970 + i)"
      "DayFromYear (1970 + i) \<le> 365 * i" by simp_all
  from bound_down [OF this DayFromYear_step [of "1970 + (i - 1)", unfolded e]] show ?case .
qed

lemma year_search_spec:
  "DayFromYear (y - int n) \<le> d \<Longrightarrow> d < DayFromYear (y + 1) \<Longrightarrow>
     DayFromYear (year_search n d y) \<le> d \<and> d < DayFromYear (year_search n d y + 1)"
proof (induction n arbitrary: y)
  case 0
  then show ?case by simp
next
  case (Suc n)
  show ?case
  proof (cases "DayFromYear y \<le> d")
    case True
    with Suc.prems show ?thesis by simp
  next
    case False
    have "DayFromYear (y - 1 - int n) \<le> d" using Suc.prems(1) by (simp add: algebra_simps)
    moreover have "d < DayFromYear (y - 1 + 1)" using False by simp
    ultimately show ?thesis using Suc.IH [of "y - 1"] False by simp
  qed
qed


lemma div_bounds:
  "0 < c \<Longrightarrow> c * (a div c) \<le> a \<and> a < c * (a div c) + c" for a c :: int
proof -
  assume c: "0 < c"
  have "c * (a div c) + a mod c = a" by (rule mult_div_mod_eq)
  with pos_mod_bound [OF c, of a] pos_mod_sign [OF c, of a] show ?thesis by linarith
qed

lemma YearFromDay_spec:
  "DayFromYear (YearFromDay d) \<le> d \<and> d < DayFromYear (YearFromDay d + 1)"
proof -
  define q q' where "q = d div 365" and "q' = d div 366"
  have m: "365 * q \<le> d" "d < 365 * q + 365" "366 * q' \<le> d" "d < 366 * q' + 366"
    unfolding q_def q'_def using div_bounds [of 365 d] div_bounds [of 366 d] by simp_all
  define hi lo where "hi = 1970 + (if 0 \<le> d then q else q') + 1"
    and "lo = 1970 + (if 0 \<le> d then q' else q) - 1"
  have Y: "YearFromDay d = year_search (nat (hi - lo)) d hi"
    unfolding YearFromDay_def Let_def hi_def lo_def q_def q'_def ..
  have "DayFromYear lo \<le> d \<and> d < DayFromYear (hi + 1) \<and> lo \<le> hi"
  proof (cases "0 \<le> d")
    case True
    then have h: "hi + 1 = 1970 + (q + 2)" and l: "lo = 1970 + (q' - 1)"
      by (simp_all add: hi_def lo_def)
    from True m have q: "0 \<le> q" "0 \<le> q'" by linarith+
    from q DayFromYear_after_1970 [of "q + 2"] have "365 * (q + 2) \<le> DayFromYear (hi + 1)"
      unfolding h by simp
    with m have u: "d < DayFromYear (hi + 1)" by (simp add: algebra_simps)
    have lw: "DayFromYear lo \<le> d"
    proof (cases "0 \<le> q' - 1")
      case True
      from DayFromYear_after_1970 [OF this] have "DayFromYear lo \<le> 366 * (q' - 1)"
        unfolding l by simp
      with m show ?thesis by (simp add: algebra_simps)
    next
      case False
      with q have "q' - 1 \<le> 0" by linarith
      from DayFromYear_before_1970 [OF this] have "DayFromYear lo \<le> 365 * (q' - 1)"
        unfolding l by simp
      with False \<open>0 \<le> d\<close> show ?thesis by (simp add: algebra_simps)
    qed
    from True m q have "lo \<le> hi" unfolding hi_def lo_def by simp
    with u lw show ?thesis by blast
  next
    case False
    then have h: "hi + 1 = 1970 + (q' + 2)" and l: "lo = 1970 + (q - 1)"
      by (simp_all add: hi_def lo_def)
    from False m have q: "q \<le> - 1" "q' \<le> - 1" by linarith+
    have u: "d < DayFromYear (hi + 1)"
    proof (cases "q' + 2 \<le> 0")
      case True
      from DayFromYear_before_1970 [OF this] have "366 * (q' + 2) \<le> DayFromYear (hi + 1)"
        unfolding h by simp
      with m show ?thesis by (simp add: algebra_simps)
    next
      case False
      with q have "0 \<le> q' + 2" by linarith
      from DayFromYear_after_1970 [OF this] have "365 * (q' + 2) \<le> DayFromYear (hi + 1)"
        unfolding h by simp
      with False \<open>\<not> 0 \<le> d\<close> show ?thesis by (simp add: algebra_simps)
    qed
    from q have "q - 1 \<le> 0" by linarith
    from DayFromYear_before_1970 [OF this] have "DayFromYear lo \<le> 365 * (q - 1)"
      unfolding l by simp
    with m have lw: "DayFromYear lo \<le> d" by (simp add: algebra_simps)
    from False m q have "lo \<le> hi" unfolding hi_def lo_def by simp
    with u lw show ?thesis by blast
  qed
  then have a: "DayFromYear (hi - int (nat (hi - lo))) \<le> d" and b: "d < DayFromYear (hi + 1)"
    by simp_all
  from year_search_spec [OF a b] show ?thesis unfolding Y .
qed

lemma YearFromDay_unique:
  assumes "DayFromYear y \<le> d" "d < DayFromYear (y + 1)"
  shows "YearFromDay d = y"
proof -
  from YearFromDay_spec [of d] assms
  have "DayFromYear y < DayFromYear (YearFromDay d + 1)"
       "DayFromYear (YearFromDay d) < DayFromYear (y + 1)" by linarith+
  from DayFromYear_less [OF this(1)] DayFromYear_less [OF this(2)] show ?thesis by linarith
qed

lemma YearFromDay_mono: "d \<le> d' \<Longrightarrow> YearFromDay d \<le> YearFromDay d'"
proof -
  assume "d \<le> d'"
  with YearFromDay_spec [of d] YearFromDay_spec [of d']
  have "DayFromYear (YearFromDay d) < DayFromYear (YearFromDay d' + 1)" by linarith
  from DayFromYear_less [OF this] show ?thesis by linarith
qed


subsection \<open>The start of a month and of a quarter\<close>

lemma month_starts_facts:
  "sorted (month_starts leap)" "length (month_starts leap) = 12" "month_starts leap ! 0 = 0"
  by (simp_all add: month_starts_def)

lemma length_filter_mono:
  "(\<And>x. P x \<Longrightarrow> Q x) \<Longrightarrow> length (filter P xs) \<le> length (filter Q xs)"
  by (induction xs) auto

lemma nth_count_le:
  "sorted (x # ys) \<Longrightarrow> x \<le> w \<Longrightarrow> (x # ys) ! length (filter (\<lambda>s. s \<le> w) ys) \<le> w"
  for w :: int
proof (induction ys arbitrary: x)
  case Nil
  then show ?case by simp
next
  case (Cons y ys)
  show ?case
  proof (cases "y \<le> w")
    case True
    from Cons.prems have "sorted (y # ys)" by simp
    from Cons.IH [OF this True] True show ?thesis by simp
  next
    case False
    with Cons.prems have "\<forall>s\<in>set ys. \<not> s \<le> w" by auto
    then have "filter (\<lambda>s. s \<le> w) ys = []" by (simp add: filter_empty_conv)
    with False Cons.prems show ?thesis by simp
  qed
qed

lemma MonthFromDay_less: "MonthFromDay d < 12"
proof -
  have "MonthFromDay d \<le> length (tl (month_starts (InLeapYear (YearFromDay d))))"
    unfolding MonthFromDay_def by (rule length_filter_le)
  then show ?thesis by (simp add: month_starts_facts)
qed

lemma DayWithinYear_nonneg: "0 \<le> DayWithinYear d"
  using YearFromDay_spec [of d] by (simp add: DayWithinYear_def)

lemma month_starts_Cons: "month_starts leap = 0 # tl (month_starts leap)"
  by (simp add: month_starts_def)

lemma month_start_le: "month_starts (InLeapYear (YearFromDay d)) ! MonthFromDay d \<le> DayWithinYear d"
proof -
  let ?ms = "month_starts (InLeapYear (YearFromDay d))"
  have s: "sorted (0 # tl ?ms)" using month_starts_facts(1) [of "InLeapYear (YearFromDay d)"]
    by (simp only: month_starts_Cons [symmetric])
  from nth_count_le [OF s DayWithinYear_nonneg [of d]]
  show ?thesis unfolding MonthFromDay_def by (simp only: month_starts_Cons [symmetric])
qed

lemma month_starts_nth_mono:
  "i \<le> j \<Longrightarrow> j < 12 \<Longrightarrow> month_starts leap ! i \<le> month_starts leap ! j"
  using sorted_nth_mono [OF month_starts_facts(1) [of leap], of i j]
  by (simp add: month_starts_facts)

lemma month_starts_nth_nonneg: "j < 12 \<Longrightarrow> 0 \<le> month_starts leap ! j"
  using month_starts_nth_mono [of 0 j leap] by (simp add: month_starts_facts)

lemma MonthFromDay_mono:
  assumes "d \<le> d'" "YearFromDay d = YearFromDay d'"
  shows "MonthFromDay d \<le> MonthFromDay d'"
proof -
  from assms have "DayWithinYear d \<le> DayWithinYear d'" by (simp add: DayWithinYear_def)
  then show ?thesis unfolding MonthFromDay_def assms(2)
    by (intro length_filter_mono) simp
qed

text \<open>
  The first day of a part of the year that starts with a month: \<open>f\<close> sends a month to the
  first month of its part (the month itself, or the first month of its quarter).
\<close>

lemma part_start_mono:
  assumes f: "\<And>m. f m \<le> m" "\<And>m m'. m \<le> m' \<Longrightarrow> f m \<le> f m'"
    and d: "d \<le> d'"
  shows "MakeDay (YearFromDay d) (f (MonthFromDay d)) 1
           \<le> MakeDay (YearFromDay d') (f (MonthFromDay d')) 1"
proof (cases "YearFromDay d = YearFromDay d'")
  case True
  from MonthFromDay_mono [OF d True] have "f (MonthFromDay d) \<le> f (MonthFromDay d')"
    by (rule f(2))
  moreover have "f (MonthFromDay d') < 12"
    using f(1) [of "MonthFromDay d'"] MonthFromDay_less [of d'] by simp
  ultimately have "month_starts (InLeapYear (YearFromDay d')) ! f (MonthFromDay d)
      \<le> month_starts (InLeapYear (YearFromDay d')) ! f (MonthFromDay d')"
    by (rule month_starts_nth_mono)
  then show ?thesis by (simp add: MakeDay_def True)
next
  case False
  with YearFromDay_mono [OF d] have "YearFromDay d + 1 \<le> YearFromDay d'" by simp
  from DayFromYear_mono [OF this] YearFromDay_spec [of d]
  have a: "d < DayFromYear (YearFromDay d')" by simp
  have l: "f (MonthFromDay d) < 12"
    using f(1) [of "MonthFromDay d"] MonthFromDay_less [of d] by simp
  from month_starts_nth_mono [OF f(1) [of "MonthFromDay d"] MonthFromDay_less [of d],
      of "InLeapYear (YearFromDay d)"]
    month_start_le [of d]
  have b: "MakeDay (YearFromDay d) (f (MonthFromDay d)) 1 \<le> d"
    by (simp add: MakeDay_def DayWithinYear_def)
  have "f (MonthFromDay d') < 12"
    using f(1) [of "MonthFromDay d'"] MonthFromDay_less [of d'] by simp
  from month_starts_nth_nonneg [OF this]
  have c: "DayFromYear (YearFromDay d') \<le> MakeDay (YearFromDay d') (f (MonthFromDay d')) 1"
    by (simp add: MakeDay_def)
  from a b c show ?thesis by simp
qed

lemma local_day_mono: "t \<le> t' \<Longrightarrow> local_day h t \<le> local_day h t'"
  by (simp add: local_day_def msPerDay_def zdiv_mono1)

lemma startOfDay_mono: "t \<le> t' \<Longrightarrow> startOfDay h t \<le> startOfDay h t'"
  using local_day_mono [of t t' h] by (simp add: startOfDay_def msPerDay_def)

lemma startOfMonth_mono: "t \<le> t' \<Longrightarrow> startOfMonth h t \<le> startOfMonth h t'"
  using part_start_mono [of "\<lambda>m. m", OF _ _ local_day_mono [of t t' h]]
  by (simp add: startOfMonth_def getFullYear_def getMonth_def msPerDay_def)

lemma startOfQuarter_mono: "t \<le> t' \<Longrightarrow> startOfQuarter h t \<le> startOfQuarter h t'"
proof -
  assume "t \<le> t'"
  from part_start_mono [of "\<lambda>m. 3 * (m div 3)", OF _ _ local_day_mono [OF this, of h]]
  have "MakeDay (YearFromDay (local_day h t)) (3 * (MonthFromDay (local_day h t) div 3)) 1
      \<le> MakeDay (YearFromDay (local_day h t')) (3 * (MonthFromDay (local_day h t') div 3)) 1"
    by (simp add: div_le_mono)
  then show ?thesis
    by (simp add: startOfQuarter_def getFullYear_def getMonth_def msPerDay_def)
qed

lemma bucket_start_mono: "t \<le> t' \<Longrightarrow> bucket_start h g t \<le> bucket_start h g t'"
  by (simp add: bucket_start_def startOfDay_mono startOfMonth_mono startOfQuarter_mono)

lemma sorted_map_mono:
  "sorted (map f xs) \<Longrightarrow> (\<And>x y. x \<le> y \<Longrightarrow> g x \<le> g y) \<Longrightarrow> sorted (map (\<lambda>x. g (f x)) xs)"
  for f :: "'a \<Rightarrow> int" and g :: "int \<Rightarrow> int"
  by (induction xs) auto

lemma part_start_le:
  assumes "f (MonthFromDay d) \<le> MonthFromDay d"
  shows "MakeDay (YearFromDay d) (f (MonthFromDay d)) 1 \<le> d"
  using month_starts_nth_mono [OF assms MonthFromDay_less [of d], of "InLeapYear (YearFromDay d)"]
    month_start_le [of d]
  by (simp add: MakeDay_def DayWithinYear_def)

lemma local_day_floor: "local_day h t * msPerDay - tzOffset h \<le> t"
  using div_bounds [of msPerDay "t + tzOffset h"]
  by (simp add: local_day_def msPerDay_def mult.commute)

lemma part_start_floor:
  assumes "f (MonthFromDay (local_day h t)) \<le> MonthFromDay (local_day h t)"
  shows "MakeDay (YearFromDay (local_day h t)) (f (MonthFromDay (local_day h t))) 1 * msPerDay
           - tzOffset h \<le> t"
proof -
  from part_start_le [of f, OF assms]
  have "MakeDay (YearFromDay (local_day h t)) (f (MonthFromDay (local_day h t))) 1 * msPerDay
      \<le> local_day h t * msPerDay"
    by (simp add: msPerDay_def)
  with local_day_floor [of h t] show ?thesis by simp
qed

text \<open>The start of a bucket is not after the date: the date is floored.\<close>

lemma bucket_start_le: "bucket_start h g t \<le> t"
  using local_day_floor [of h t] part_start_floor [of "\<lambda>m. m" h t]
    part_start_floor [of "\<lambda>m. 3 * (m div 3)" h t]
  by (simp add: bucket_start_def startOfDay_def startOfMonth_def startOfQuarter_def
      getFullYear_def getMonth_def)

lemma month_starts_distinct: "distinct (month_starts leap)"
  by (simp add: month_starts_def)

lemma part_start_year:
  assumes "f (MonthFromDay d) \<le> MonthFromDay d"
  shows "YearFromDay (MakeDay (YearFromDay d) (f (MonthFromDay d)) 1) = YearFromDay d"
proof (rule YearFromDay_unique)
  have "f (MonthFromDay d) < 12" using assms MonthFromDay_less [of d] by simp
  from month_starts_nth_nonneg [OF this]
  show "DayFromYear (YearFromDay d) \<le> MakeDay (YearFromDay d) (f (MonthFromDay d)) 1"
    by (simp add: MakeDay_def)
  from part_start_le [of f, OF assms] YearFromDay_spec [of d]
  show "MakeDay (YearFromDay d) (f (MonthFromDay d)) 1 < DayFromYear (YearFromDay d + 1)"
    by simp
qed

lemma part_start_inj:
  assumes f: "f (MonthFromDay d) \<le> MonthFromDay d" "f (MonthFromDay d') \<le> MonthFromDay d'"
    and e: "MakeDay (YearFromDay d) (f (MonthFromDay d)) 1
              = MakeDay (YearFromDay d') (f (MonthFromDay d')) 1"
  shows "YearFromDay d = YearFromDay d' \<and> f (MonthFromDay d) = f (MonthFromDay d')"
proof -
  from part_start_year [of f, OF f(1)] part_start_year [of f, OF f(2)] e
  have y: "YearFromDay d = YearFromDay d'" by simp
  with e have "month_starts (InLeapYear (YearFromDay d')) ! f (MonthFromDay d)
      = month_starts (InLeapYear (YearFromDay d')) ! f (MonthFromDay d')"
    by (simp add: MakeDay_def)
  moreover have "f (MonthFromDay d) < 12" "f (MonthFromDay d') < 12"
    using f MonthFromDay_less [of d] MonthFromDay_less [of d'] by simp_all
  ultimately have "f (MonthFromDay d) = f (MonthFromDay d')"
    using month_starts_distinct [of "InLeapYear (YearFromDay d')"]
    by (simp add: nth_eq_iff_index_eq month_starts_facts)
  with y show ?thesis by simp
qed

text \<open>
  Two dates with the same bucket start have the same period key: the rows of a calendar
  day, month or quarter are in one period.
\<close>

lemma bucket_start_key:
  assumes "bucket_start h g t = bucket_start h g t'"
  shows "getPeriodKey h t g = getPeriodKey h t' g"
proof (cases "g = js ''quarterly''")
  case False
  with assms show ?thesis
    by (simp add: bucket_start_def getPeriodKey_def js_def split: if_splits)
next
  case True
  then have m: "g \<noteq> js ''monthly''" "g \<noteq> js ''daily''" by (simp_all add: js_def)
  let ?f = "\<lambda>m. 3 * (m div 3)"
  from assms True m
  have "MakeDay (YearFromDay (local_day h t)) (?f (MonthFromDay (local_day h t))) 1
      = MakeDay (YearFromDay (local_day h t')) (?f (MonthFromDay (local_day h t'))) 1"
    by (simp add: bucket_start_def startOfQuarter_def getFullYear_def getMonth_def msPerDay_def)
  from part_start_inj [of ?f, OF _ _ this]
  have "YearFromDay (local_day h t) = YearFromDay (local_day h t')
      \<and> MonthFromDay (local_day h t) div 3 = MonthFromDay (local_day h t') div 3"
    by simp
  with True m show ?thesis
    by (simp add: getPeriodKey_def getYear_def getQuarter_def getFullYear_def getMonth_def)
qed

section \<open>Claims on the aggregator\<close>

lemma aggregatedData_periods:
  assumes "r \<in> set (aggregatedData h rawData cm g metrics)"
  shows "\<exists>dc q. cm (js ''date'') = Some dc \<and> q \<in> set (groupRows h dc g rawData)
           \<and> r = aggregateRow h cm g metrics q"
proof (cases "cm (js ''date'')")
  case None
  with assms show ?thesis by (simp add: aggregatedData_def)
next
  case (Some dc)
  with assms have "dc \<noteq> []" by (auto simp: aggregatedData_def split: if_splits)
  from assms have "r \<in> aggregateRow h cm g metrics ` set (groupRows h dc g rawData)"
    by (simp add: aggregatedData_unfold [of cm dc, OF Some \<open>dc \<noteq> []\<close>])
  with Some show ?thesis by auto
qed

text \<open>
  Claim C8: for every aggregation type, \<open>aggregateValues\<close> of values none of which is a
  number other than NaN (an empty list too) is the number 0; an aggregated row is built
  from a period that has rows, and a metric of the row whose column has no parsable
  value in those rows has the value 0 in the row.
\<close>

theorem empty_valid_set_reduces_to_zero:
  "((\<forall>v\<in>set vals. \<not> valid_number v) \<longrightarrow> aggregateValues vals t = Fin 0)
   \<and> (m \<in> set metrics
        \<and> (\<forall>row\<in>set (rows p). parseNumericValue (get_prop row (metric_column cm m)) = JNull)
       \<longrightarrow> aggregateRow h cm g metrics p (field m) = Some (JNum (Fin 0)))
   \<and> (r \<in> set (aggregatedData h rawData cm g metrics) \<longrightarrow>
        (\<exists>q. r = aggregateRow h cm g metrics q \<and> rows q \<noteq> [] \<and> set (rows q) \<subseteq> set rawData))"
proof (intro conjI impI)
  assume "\<forall>v\<in>set vals. \<not> valid_number v"
  then show "aggregateValues vals t = Fin 0" by (rule aggregateValues_no_valid)
next
  assume a: "m \<in> set metrics
    \<and> (\<forall>row\<in>set (rows p). parseNumericValue (get_prop row (metric_column cm m)) = JNull)"
  then obtain m' where m': "m' \<in> set metrics" "field m' = field m"
    "aggregateRow h cm g metrics p (field m) =
       Some (JNum (aggregateValues (metric_values cm p m') (aggregationType m')))"
    using aggregateRow_metric [of m metrics h cm g p] by blast
  from a m'(2) have "metric_values cm p m' = []"
    by (simp add: metric_values_all_null metric_column_field [of m' m])
  with m'(3) show "aggregateRow h cm g metrics p (field m) = Some (JNum (Fin 0))"
    by (simp add: aggregateValues_def)
next
  assume "r \<in> set (aggregatedData h rawData cm g metrics)"
  then obtain dc q where q: "q \<in> set (groupRows h dc g rawData)"
      "r = aggregateRow h cm g metrics q"
    using aggregatedData_periods by blast
  from groupRows_first_seen [OF q(1)] q(2)
  show "\<exists>q. r = aggregateRow h cm g metrics q \<and> rows q \<noteq> [] \<and> set (rows q) \<subseteq> set rawData"
    by blast
qed

lemma example_month:
  "aggregatedData host_utc
     [[(js ''d'', JNum (Fin 45306)), (js ''sales'', JStr (js ''n/a''))],
      [(js ''d'', JNum (Fin 45292)), (js ''sales'', JNull)]]
     [js ''date'' \<mapsto> js ''d''] (js ''monthly'') ms =
   [aggregateRow host_utc [js ''date'' \<mapsto> js ''d''] (js ''monthly'') ms
      \<lparr>periodKey = js ''2024-01'', date = 1705276800000,
       rows = [[(js ''d'', JNum (Fin 45306)), (js ''sales'', JStr (js ''n/a''))],
               [(js ''d'', JNum (Fin 45292)), (js ''sales'', JNull)]]\<rparr>]"
  by (simp add: js_def aggregatedData_def groupRows_def group_step_def get_prop_def
      date_simps key_simps cong: let_weak_cong)

theorem empty_valid_set_reduces_to_zero_witness:
  "aggregateValues [JNull, JNum NaN] (js ''min'') = Fin 0
   \<and> aggregateRow host_utc [js ''date'' \<mapsto> js ''d''] (js ''monthly'')
        [\<lparr>field = js ''sales'', aggregationType = js ''average''\<rparr>]
        \<lparr>periodKey = js ''2024-01'', date = 1705276800000,
         rows = [[(js ''d'', JNum (Fin 45306)), (js ''sales'', JStr (js ''n/a''))],
                 [(js ''d'', JNum (Fin 45292)), (js ''sales'', JNull)]]\<rparr>
        (js ''sales'') = Some (JNum (Fin 0))
   \<and> (\<exists>q. aggregateRow host_utc [js ''date'' \<mapsto> js ''d''] (js ''monthly'')
             [\<lparr>field = js ''sales'', aggregationType = js ''average''\<rparr>]
             \<lparr>periodKey = js ''2024-01'', date = 1705276800000,
              rows = [[(js ''d'', JNum (Fin 45306)), (js ''sales'', JStr (js ''n/a''))],
                      [(js ''d'', JNum (Fin 45292)), (js ''sales'', JNull)]]\<rparr>
           = aggregateRow host_utc [js ''date'' \<mapsto> js ''d''] (js ''monthly'')
               [\<lparr>field = js ''sales'', aggregationType = js ''average''\<rparr>] q
         \<and> rows q \<noteq> []
         \<and> set (rows q) \<subseteq> set [[(js ''d'', JNum (Fin 45306)), (js ''sales'', JStr (js ''n/a''))],
                                 [(js ''d'', JNum (Fin 45292)), (js ''sales'', JNull)]])"
proof -
  let ?rows = "[[(js ''d'', JNum (Fin 45306)), (js ''sales'', JStr (js ''n/a''))],
                [(js ''d'', JNum (Fin 45292)), (js ''sales'', JNull)]]"
  let ?m = "\<lparr>field = js ''sales'', aggregationType = js ''average''\<rparr>"
  let ?p = "\<lparr>periodKey = js ''2024-01'', date = 1705276800000, rows = ?rows\<rparr>"
  let ?cm = "[js ''date'' \<mapsto> js ''d'']"
  have a: "\<forall>v\<in>set [JNull, JNum NaN]. \<not> valid_number v"
    by (simp add: valid_number_def isNaN_def)
  have b: "?m \<in> set [?m]" by simp
  have c: "\<forall>row\<in>set (rows ?p). parseNumericValue (get_prop row (metric_column ?cm ?m)) = JNull"
    by (simp add: js_def metric_column_def get_prop_def parse_simps)
  have d: "aggregateRow host_utc ?cm (js ''monthly'') [?m] ?p
             \<in> set (aggregatedData host_utc ?rows ?cm (js ''monthly'') [?m])"
    by (simp add: example_month)
  from empty_valid_set_reduces_to_zero
    [of "[JNull, JNum NaN]" "js ''min''" ?m "[?m]" ?p ?cm host_utc "js ''monthly''"
        "aggregateRow host_utc ?cm (js ''monthly'') [?m] ?p" ?rows]
    a b c d
  show ?thesis by simp
qed

lemma find_Some_pred: "find P xs = Some x \<Longrightarrow> P x"
  by (induction xs) (auto split: if_splits)

text \<open>
  Claim C3, as stated, has the date of an aggregated row floored to the start of its
  bucket, whatever the order of the rows. The engine stores the parsed date of the first
  row of the bucket: with the row of 15 January 2024 before the row of 1 January, the
  monthly row carries 15 January, which is not the start of the month; with the rows in
  the other order it carries 1 January. (A metric whose field is \<open>date\<close> overwrites the
  property with its value.)
\<close>

theorem date_field_bucket_start_counterexample:
  "map (\<lambda>r. r (js ''date''))
     (aggregatedData host_utc
        [[(js ''d'', JNum (Fin 45306))], [(js ''d'', JNum (Fin 45292))]]
        [js ''date'' \<mapsto> js ''d''] (js ''monthly'') [])
     = [Some (JDate (Some 1705276800000))]
   \<and> startOfMonth host_utc 1705276800000 = 1704067200000
   \<and> map (\<lambda>r. r (js ''date''))
     (aggregatedData host_utc
        [[(js ''d'', JNum (Fin 45292))], [(js ''d'', JNum (Fin 45306))]]
        [js ''date'' \<mapsto> js ''d''] (js ''monthly'') [])
     = [Some (JDate (Some 1704067200000))]
   \<and> map (\<lambda>r. r (js ''date''))
     (aggregatedData host_utc
        [[(js ''d'', JNum (Fin 45292))]]
        [js ''date'' \<mapsto> js ''d''] (js ''monthly'')
        [\<lparr>field = js ''date'', aggregationType = js ''sum''\<rparr>])
     = [Some (JNum (Fin 45292))]"
proof -
  have a: "map (\<lambda>r. r (js ''date''))
     (aggregatedData host_utc
        [[(js ''d'', JNum (Fin 45306))], [(js ''d'', JNum (Fin 45292))]]
        [js ''date'' \<mapsto> js ''d''] (js ''monthly'') [])
     = [Some (JDate (Some 1705276800000))]"
    by (simp add: js_def aggregate_simps date_simps key_simps cong: let_weak_cong)
  have b: "startOfMonth host_utc 1705276800000 = 1704067200000"
    by (simp add: date_simps cong: let_weak_cong)
  have c: "map (\<lambda>r. r (js ''date''))
     (aggregatedData host_utc
        [[(js ''d'', JNum (Fin 45292))], [(js ''d'', JNum (Fin 45306))]]
        [js ''date'' \<mapsto> js ''d''] (js ''monthly'') [])
     = [Some (JDate (Some 1704067200000))]"
    by (simp add: js_def aggregate_simps date_simps key_simps cong: let_weak_cong)
  have d: "map (\<lambda>r. r (js ''date''))
     (aggregatedData host_utc
        [[(js ''d'', JNum (Fin 45292))]]
        [js ''date'' \<mapsto> js ''d''] (js ''monthly'')
        [\<lparr>field = js ''date'', aggregationType = js ''sum''\<rparr>])
     = [Some (JNum (Fin 45292))]"
    by (simp add: js_def aggregate_simps date_simps key_simps parse_simps cong: let_weak_cong)
  from a b c d show ?thesis by blast
qed

text \<open>
  Claim C3, amended: when no metric has the field \<open>date\<close> or \<open>periodKey\<close>, the date of
  an aggregated row is the parsed date of the first row, in the order of the input,
  whose period key is the key of the aggregated row; the key is the period key of that
  date for the requested granularity.
\<close>

theorem date_field_is_first_seen:
  assumes "js ''date'' \<notin> field ` set metrics" "js ''periodKey'' \<notin> field ` set metrics"
    and "r \<in> set (aggregatedData h rawData cm g metrics)"
  shows "\<exists>dc row t. cm (js ''date'') = Some dc
           \<and> find (\<lambda>x. row_key h dc g x = Some (getPeriodKey h t g)) rawData = Some row
           \<and> parseDate h (get_prop row dc) = Some t
           \<and> r (js ''date'') = Some (JDate (Some t))
           \<and> r (js ''periodKey'') = Some (JStr (getPeriodKey h t g))"
proof -
  from assms(3) obtain dc q where q: "cm (js ''date'') = Some dc"
      "q \<in> set (groupRows h dc g rawData)" "r = aggregateRow h cm g metrics q"
    using aggregatedData_periods by blast
  from groupRows_first_seen [OF q(2)] obtain row where
    row: "find (\<lambda>x. row_key h dc g x = Some (periodKey q)) rawData = Some row"
      "parseDate h (get_prop row dc) = Some (date q)"
    by blast
  from find_Some_pred [OF row(1)] row(2) have key: "getPeriodKey h (date q) g = periodKey q"
    by (simp add: row_key_def)
  from row key q(1,3) assms(1,2) show ?thesis
    by (auto simp: aggregateRow_date aggregateRow_periodKey)
qed

theorem date_field_is_first_seen_witness:
  "\<exists>dc row t. [js ''date'' \<mapsto> js ''d''] (js ''date'') = Some dc
     \<and> find (\<lambda>x. row_key host_utc dc (js ''monthly'') x
                   = Some (getPeriodKey host_utc t (js ''monthly'')))
          [[(js ''d'', JNum (Fin 45306)), (js ''sales'', JStr (js ''n/a''))],
           [(js ''d'', JNum (Fin 45292)), (js ''sales'', JNull)]] = Some row
     \<and> parseDate host_utc (get_prop row dc) = Some t
     \<and> aggregateRow host_utc [js ''date'' \<mapsto> js ''d''] (js ''monthly'') []
          \<lparr>periodKey = js ''2024-01'', date = 1705276800000,
           rows = [[(js ''d'', JNum (Fin 45306)), (js ''sales'', JStr (js ''n/a''))],
                   [(js ''d'', JNum (Fin 45292)), (js ''sales'', JNull)]]\<rparr> (js ''date'')
         = Some (JDate (Some t))
     \<and> aggregateRow host_utc [js ''date'' \<mapsto> js ''d''] (js ''monthly'') []
          \<lparr>periodKey = js ''2024-01'', date = 1705276800000,
           rows = [[(js ''d'', JNum (Fin 45306)), (js ''sales'', JStr (js ''n/a''))],
                   [(js ''d'', JNum (Fin 45292)), (js ''sales'', JNull)]]\<rparr> (js ''periodKey'')
         = Some (JStr (getPeriodKey host_utc t (js ''monthly'')))"
proof -
  let ?rows = "[[(js ''d'', JNum (Fin 45306)), (js ''sales'', JStr (js ''n/a''))],
                [(js ''d'', JNum (Fin 45292)), (js ''sales'', JNull)]]"
  let ?p = "\<lparr>periodKey = js ''2024-01'', date = 1705276800000, rows = ?rows\<rparr>"
  let ?cm = "[js ''date'' \<mapsto> js ''d'']"
  have a: "js ''date'' \<notin> field ` set ([] :: metric list)"
      "js ''periodKey'' \<notin> field ` set ([] :: metric list)"
    by simp_all
  have b: "aggregateRow host_utc ?cm (js ''monthly'') [] ?p
             \<in> set (aggregatedData host_utc ?rows ?cm (js ''monthly'') [])"
    by (simp add: example_month)
  from date_field_is_first_seen [OF a b] show ?thesis .
qed






text \<open>
  A metric whose field is the name of a fixed property overwrites that property on every
  row. No caller of the aggregator builds such a metric: the fields are the keys of the
  mapping other than \<open>date\<close>, or \<open>raw_\<close> followed by a column name.
\<close>

lemma metric_named_periodKey:
  "map (\<lambda>r. r (js ''periodKey''))
     (aggregatedData host_utc
        [[(js ''d'', JNum (Fin 45292))], [(js ''d'', JNum (Fin 45293))]]
        [js ''date'' \<mapsto> js ''d''] (js ''daily'')
        [\<lparr>field = js ''periodKey'', aggregationType = js ''sum''\<rparr>])
   = [Some (JNum (Fin 0)), Some (JNum (Fin 0))]"
  by (simp add: js_def aggregate_simps date_simps key_simps parse_simps cong: let_weak_cong)

lemma groupRows_key_of_date:
  assumes "p \<in> set (groupRows h dc g xs)"
  shows "periodKey p = getPeriodKey h (date p) g"
proof -
  from groupRows_first_seen [OF assms] obtain row where
    row: "find (\<lambda>x. row_key h dc g x = Some (periodKey p)) xs = Some row"
      "parseDate h (get_prop row dc) = Some (date p)"
    by blast
  from find_Some_pred [OF row(1)] row(2) show ?thesis by (simp add: row_key_def)
qed

text \<open>
  Claim C7: the rows of a result are built one from each period, in the order of the
  periods. The periods have pairwise distinct keys, each the period key of the date of
  its period, and they are in ascending order of the start of their bucket (and of their
  date, the key of the sort), for every granularity. The \<open>periodKey\<close> of a row is the key
  of its period when no metric has the field \<open>periodKey\<close>, and its \<open>date\<close> is the date of
  its period when no metric has the field \<open>date\<close>.
\<close>

theorem period_keys_unique_and_sorted:
  "\<exists>ps. aggregatedData h rawData cm g metrics = map (aggregateRow h cm g metrics) ps
     \<and> distinct (map periodKey ps)
     \<and> (\<forall>p\<in>set ps. periodKey p = getPeriodKey h (date p) g)
     \<and> sorted (map (\<lambda>p. bucket_start h g (date p)) ps)
     \<and> sorted (map date ps)
     \<and> (js ''periodKey'' \<notin> field ` set metrics \<longrightarrow>
          map (\<lambda>r. r (js ''periodKey'')) (aggregatedData h rawData cm g metrics)
            = map (\<lambda>p. Some (JStr (periodKey p))) ps)
     \<and> (js ''date'' \<notin> field ` set metrics \<longrightarrow>
          map (\<lambda>r. r (js ''date'')) (aggregatedData h rawData cm g metrics)
            = map (\<lambda>p. Some (JDate (Some (date p)))) ps)"
proof -
  define ps where "ps = (case cm (js ''date'') of
      None \<Rightarrow> []
    | Some dc \<Rightarrow> if dc = [] then [] else sort_key date (groupRows h dc g rawData))"
  have out: "aggregatedData h rawData cm g metrics = map (aggregateRow h cm g metrics) ps"
  proof (cases "\<exists>dc. cm (js ''date'') = Some dc \<and> dc \<noteq> []")
    case True
    then obtain dc where dc: "cm (js ''date'') = Some dc" "dc \<noteq> []" by blast
    from aggregatedData_unfold [of cm dc, OF dc] dc show ?thesis by (simp add: ps_def)
  next
    case False
    then have "aggregatedData h rawData cm g metrics = []"
      by (intro aggregatedData_empty) (cases "cm (js ''date'')"; simp)
    moreover from False have "ps = []" by (auto simp: ps_def split: option.splits)
    ultimately show ?thesis by simp
  qed
  have d: "distinct (map periodKey ps)"
    using groupRows_keys by (simp add: ps_def distinct_map_sort_key split: option.splits)
  have k: "\<forall>p\<in>set ps. periodKey p = getPeriodKey h (date p) g"
    by (auto simp: ps_def groupRows_key_of_date split: option.splits if_splits)
  have s: "sorted (map date ps)"
    by (simp add: ps_def split: option.splits)
  from sorted_map_mono [OF s bucket_start_mono]
  have b: "sorted (map (\<lambda>p. bucket_start h g (date p)) ps)" .
  have pk: "js ''periodKey'' \<notin> field ` set metrics \<longrightarrow>
          map (\<lambda>r. r (js ''periodKey'')) (aggregatedData h rawData cm g metrics)
            = map (\<lambda>p. Some (JStr (periodKey p))) ps"
    unfolding out by (simp add: aggregateRow_periodKey)
  have dt: "js ''date'' \<notin> field ` set metrics \<longrightarrow>
          map (\<lambda>r. r (js ''date'')) (aggregatedData h rawData cm g metrics)
            = map (\<lambda>p. Some (JDate (Some (date p)))) ps"
    unfolding out by (simp add: aggregateRow_date)
  from out d k b s pk dt show ?thesis by blast
qed

theorem period_keys_unique_and_sorted_witness:
  "(\<exists>ps. aggregatedData host_utc
            [[(js ''d'', JNum (Fin 45323)), (js ''sales'', JNum (Fin 7))],
             [(js ''d'', JNum (Fin 45306)), (js ''sales'', JStr (js ''n/a''))],
             [(js ''d'', JNum (Fin 45292)), (js ''sales'', JNum (Fin 5))]]
            [js ''date'' \<mapsto> js ''d''] (js ''monthly'')
            [\<lparr>field = js ''sales'', aggregationType = js ''sum''\<rparr>]
          = map (aggregateRow host_utc [js ''date'' \<mapsto> js ''d''] (js ''monthly'')
                   [\<lparr>field = js ''sales'', aggregationType = js ''sum''\<rparr>]) ps
        \<and> distinct (map periodKey ps)
        \<and> sorted (map (\<lambda>p. bucket_start host_utc (js ''monthly'') (date p)) ps)
        \<and> sorted (map date ps)
        \<and> map (\<lambda>p. Some (JStr (periodKey p))) ps
            = [Some (JStr (js ''2024-01'')), Some (JStr (js ''2024-02''))]
        \<and> map (\<lambda>p. Some (JDate (Some (date p)))) ps
            = [Some (JDate (Some 1705276800000)), Some (JDate (Some 1706745600000))])
   \<and> map (bucket_start host_utc (js ''monthly'')) [1705276800000, 1706745600000]
       = [1704067200000, 1706745600000]"
proof -
  let ?rows = "[[(js ''d'', JNum (Fin 45323)), (js ''sales'', JNum (Fin 7))],
                [(js ''d'', JNum (Fin 45306)), (js ''sales'', JStr (js ''n/a''))],
                [(js ''d'', JNum (Fin 45292)), (js ''sales'', JNum (Fin 5))]]"
  let ?cm = "[js ''date'' \<mapsto> js ''d'']"
  let ?ms = "[\<lparr>field = js ''sales'', aggregationType = js ''sum''\<rparr>]"
  let ?out = "aggregatedData host_utc ?rows ?cm (js ''monthly'') ?ms"
  have a: "js ''periodKey'' \<notin> field ` set ?ms" "js ''date'' \<notin> field ` set ?ms"
    by (simp_all add: js_def)
  have k: "map (\<lambda>r. r (js ''periodKey'')) ?out
             = [Some (JStr (js ''2024-01'')), Some (JStr (js ''2024-02''))]"
    by (simp add: js_def aggregate_simps date_simps key_simps parse_simps cong: let_weak_cong)
  have t: "map (\<lambda>r. r (js ''date'')) ?out
             = [Some (JDate (Some 1705276800000)), Some (JDate (Some 1706745600000))]"
    by (simp add: js_def aggregate_simps date_simps key_simps parse_simps cong: let_weak_cong)
  have b: "map (bucket_start host_utc (js ''monthly'')) [1705276800000, 1706745600000]
             = [1704067200000, 1706745600000]"
    by (simp add: js_def bucket_start_def date_simps cong: let_weak_cong)
  from period_keys_unique_and_sorted [of host_utc ?rows ?cm "js ''monthly''" ?ms]
  obtain ps where c: "?out = map (aggregateRow host_utc ?cm (js ''monthly'') ?ms) ps
     \<and> distinct (map periodKey ps)
     \<and> (\<forall>p\<in>set ps. periodKey p = getPeriodKey host_utc (date p) (js ''monthly''))
     \<and> sorted (map (\<lambda>p. bucket_start host_utc (js ''monthly'') (date p)) ps)
     \<and> sorted (map date ps)
     \<and> (js ''periodKey'' \<notin> field ` set ?ms \<longrightarrow>
          map (\<lambda>r. r (js ''periodKey'')) ?out = map (\<lambda>p. Some (JStr (periodKey p))) ps)
     \<and> (js ''date'' \<notin> field ` set ?ms \<longrightarrow>
          map (\<lambda>r. r (js ''date'')) ?out = map (\<lambda>p. Some (JDate (Some (date p)))) ps)" ..
  from c have c1: "?out = map (aggregateRow host_utc ?cm (js ''monthly'') ?ms) ps"
    by (elim conjE)
  from c have c2: "distinct (map periodKey ps)"
    by (elim conjE)
  from c have c3: "sorted (map (\<lambda>p. bucket_start host_utc (js ''monthly'') (date p)) ps)"
    by (elim conjE)
  from c have c4: "sorted (map date ps)"
    by (elim conjE)
  from c have c5: "js ''periodKey'' \<notin> field ` set ?ms \<longrightarrow>
      map (\<lambda>r. r (js ''periodKey'')) ?out = map (\<lambda>p. Some (JStr (periodKey p))) ps"
    by (elim conjE)
  from c have c6: "js ''date'' \<notin> field ` set ?ms \<longrightarrow>
      map (\<lambda>r. r (js ''date'')) ?out = map (\<lambda>p. Some (JDate (Some (date p)))) ps"
    by (elim conjE)
  have k': "map (\<lambda>p. Some (JStr (periodKey p))) ps
      = [Some (JStr (js ''2024-01'')), Some (JStr (js ''2024-02''))]"
    by (rule trans [OF sym [OF mp [OF c5 a(1)]] k])
  have t': "map (\<lambda>p. Some (JDate (Some (date p)))) ps
      = [Some (JDate (Some 1705276800000)), Some (JDate (Some 1706745600000))]"
    by (rule trans [OF sym [OF mp [OF c6 a(2)]] t])
  from c1 c2 c3 c4 k' t' b show ?thesis
    by (intro conjI exI [of _ ps])
qed

section \<open>Claims on the formula evaluator\<close>

lemma length_takeWhile_all: "length (takeWhile P s) = length s \<longleftrightarrow> (\<forall>c\<in>set s. P c)"
  by (induction s) auto

lemma rx_match_class_plus:
  "rx_match True [(cls, 1, None)] s \<longleftrightarrow> s \<noteq> [] \<and> (\<forall>c\<in>set s. cls c)"
proof -
  let ?n = "length (takeWhile cls s)"
  have le: "?n \<le> length s" by (rule length_takeWhile_le)
  have "rx_match True [(cls, 1, None)] s \<longleftrightarrow> (\<exists>k\<in>set [1..<Suc ?n]. drop k s = [])"
    unfolding rx_match.simps Let_def list_ex_iff by simp
  also have "\<dots> \<longleftrightarrow> (\<exists>k. 1 \<le> k \<and> k \<le> ?n \<and> length s \<le> k)"
    by (auto simp: less_Suc_eq_le)
  also have "\<dots> \<longleftrightarrow> s \<noteq> [] \<and> ?n = length s"
    using le by (cases s) auto
  finally show ?thesis by (simp add: length_takeWhile_all)
qed

lemma formula_char_claimed: "formula_char c = claimed_formula_char c"
  by (auto simp: formula_char_def claimed_formula_char_def is_digit_def)

lemma whitelist_test_iff:
  "whitelist_test e \<longleftrightarrow> e \<noteq> [] \<and> (\<forall>c\<in>set e. claimed_formula_char c)"
  unfolding whitelist_test_def rx_match_class_plus
  by (simp add: formula_char_claimed)

lemma parseFloat_run_expr: "parseFloat (h\<lparr>run_expr := ev\<rparr>) v = parseFloat h v"
  by (cases v) (simp_all add: parseFloat_def String_of_def)

lemma lookupValue_run_expr:
  "lookupValue (h\<lparr>run_expr := ev\<rparr>) row cm name = lookupValue h row cm name"
proof -
  have "lookup_row (h\<lparr>run_expr := ev\<rparr>) row name = lookup_row h row name"
    by (auto simp: lookup_row_def parseFloat_run_expr split: option.splits)
  moreover have "lookup_mapping (h\<lparr>run_expr := ev\<rparr>) row cm name = lookup_mapping h row cm name"
    by (auto simp: lookup_mapping_def parseFloat_run_expr Let_def split: option.splits prod.splits)
  ultimately show ?thesis by (simp add: lookupValue_def split: option.splits)
qed

lemma substitute_run_expr:
  "substitute (h\<lparr>run_expr := ev\<rparr>) row cm refs e = substitute h row cm refs e"
  by (induction refs arbitrary: e) (auto simp: lookupValue_run_expr split: option.splits)

text \<open>
  Claim C1: every expression that \<open>evaluateFormula\<close> hands to the arithmetic evaluator is
  the formula after the substitution of its references, is not empty and is made of
  digits, the operators \<open>+ - * /\<close>, parentheses, decimal points and white space only;
  there is at most one call. When another character remains in the substituted
  expression, the function returns \<open>null\<close> and the evaluator is not called at all; when
  the formula is not empty and the substituted expression is made of those characters,
  the evaluator is called on it. So the value of the function does not depend on what the
  evaluator does on any other text, and a value other than \<open>null\<close> is the evaluator's
  result on such an expression.
\<close>

theorem formula_whitelist:
  "(\<forall>x\<in>set (evaluated h formula row cm).
       substitute h row cm (columnRefs formula) formula = Some x
       \<and> x \<noteq> [] \<and> (\<forall>c\<in>set x. claimed_formula_char c))
   \<and> length (evaluated h formula row cm) \<le> 1
   \<and> (substitute h row cm (columnRefs formula) formula = Some e
      \<and> (\<exists>c\<in>set e. \<not> claimed_formula_char c)
     \<longrightarrow> evaluateFormula h formula row cm = JNull \<and> evaluated h formula row cm = [])
   \<and> (formula \<noteq> [] \<and> substitute h row cm (columnRefs formula) formula = Some e
      \<and> e \<noteq> [] \<and> (\<forall>c\<in>set e. claimed_formula_char c)
     \<longrightarrow> evaluated h formula row cm = [e])
   \<and> ((\<forall>x. x \<noteq> [] \<and> (\<forall>c\<in>set x. claimed_formula_char c) \<longrightarrow> ev x = run_expr h x)
     \<longrightarrow> evaluateFormula_run (h\<lparr>run_expr := ev\<rparr>) formula row cm
           = evaluateFormula_run h formula row cm)
   \<and> (evaluateFormula h formula row cm \<noteq> JNull
     \<longrightarrow> (\<exists>x. evaluated h formula row cm = [x]
            \<and> run_expr h x = Some (evaluateFormula h formula row cm)))"
proof (intro conjI impI)
  show "\<forall>x\<in>set (evaluated h formula row cm).
       substitute h row cm (columnRefs formula) formula = Some x
       \<and> x \<noteq> [] \<and> (\<forall>c\<in>set x. claimed_formula_char c)"
  proof (rule ballI)
    fix x
    assume "x \<in> set (evaluated h formula row cm)"
    then have "substitute h row cm (columnRefs formula) formula = Some x \<and> whitelist_test x"
      by (auto simp: evaluated_unfold split: if_splits option.splits)
    then show "substitute h row cm (columnRefs formula) formula = Some x
       \<and> x \<noteq> [] \<and> (\<forall>c\<in>set x. claimed_formula_char c)"
      by (simp add: whitelist_test_iff)
  qed
next
  show "length (evaluated h formula row cm) \<le> 1"
    by (simp add: evaluated_unfold split: option.splits)
next
  assume a: "substitute h row cm (columnRefs formula) formula = Some e
      \<and> (\<exists>c\<in>set e. \<not> claimed_formula_char c)"
  then show "evaluateFormula h formula row cm = JNull"
    by (auto simp: evaluateFormula_unfold whitelist_test_iff)
  from a show "evaluated h formula row cm = []"
    by (auto simp: evaluated_unfold whitelist_test_iff)
next
  assume "formula \<noteq> [] \<and> substitute h row cm (columnRefs formula) formula = Some e
      \<and> e \<noteq> [] \<and> (\<forall>c\<in>set e. claimed_formula_char c)"
  then show "evaluated h formula row cm = [e]"
    by (simp add: evaluated_unfold whitelist_test_iff)
next
  assume ev: "\<forall>x. x \<noteq> [] \<and> (\<forall>c\<in>set x. claimed_formula_char c) \<longrightarrow> ev x = run_expr h x"
  show "evaluateFormula_run (h\<lparr>run_expr := ev\<rparr>) formula row cm
          = evaluateFormula_run h formula row cm"
  proof (cases "substitute h row cm (columnRefs formula) formula")
    case None
    then show ?thesis by (simp add: evaluateFormula_run_def substitute_run_expr)
  next
    case (Some x)
    show ?thesis
    proof (cases "whitelist_test x")
      case True
      with ev have "ev x = run_expr h x" by (simp add: whitelist_test_iff)
      with Some True show ?thesis by (simp add: evaluateFormula_run_def substitute_run_expr)
    next
      case False
      with Some show ?thesis by (simp add: evaluateFormula_run_def substitute_run_expr)
    qed
  qed
next
  assume nn: "evaluateFormula h formula row cm \<noteq> JNull"
  then obtain x where x: "substitute h row cm (columnRefs formula) formula = Some x"
    by (cases "substitute h row cm (columnRefs formula) formula")
       (auto simp: evaluateFormula_unfold split: if_splits)
  with nn have w: "whitelist_test x" and f: "formula \<noteq> []"
    by (auto simp: evaluateFormula_unfold split: if_splits)
  with nn x have "run_expr h x = Some (evaluateFormula h formula row cm)"
    by (auto simp: evaluateFormula_unfold split: if_splits option.splits jsval.splits)
  moreover from x w f have "evaluated h formula row cm = [x]"
    by (simp add: evaluated_unfold)
  ultimately show "\<exists>x. evaluated h formula row cm = [x]
            \<and> run_expr h x = Some (evaluateFormula h formula row cm)"
    by blast
qed

lemmas formula_simps = evaluateFormula_unfold evaluated_unfold lookupValue_def lookup_row_def
  lookup_mapping_def has_own_def get_prop_def parseFloat_def String_of_def number_text_def
  int_toString_def dec.simps isFinite_def run_literal_def ascii_lower_def config_column_def
  config_label_def

lemma example_injection:
  "substitute host_utc [(js ''a'', JNum (Fin 1))] [] (columnRefs (js ''{a}; DROP TABLE''))
     (js ''{a}; DROP TABLE'') = Some (js ''1; DROP TABLE'')"
  by (simp add: js_def formula_simps parse_simps host_utc_fields Let_def cong: let_weak_cong)

lemma example_reference:
  "evaluateFormula host_utc (js ''{ A }'') [(js ''a'', JStr (js ''7.0''))] [] = JNum (Fin 7)"
  by (simp add: js_def formula_simps parse_simps host_utc_fields Let_def whitelist_test_iff
      claimed_formula_char_def cong: let_weak_cong)

theorem formula_whitelist_witness:
  "substitute host_utc [(js ''a'', JNum (Fin 1))] [] (columnRefs (js ''{a}; DROP TABLE''))
     (js ''{a}; DROP TABLE'') = Some (js ''1; DROP TABLE'')
   \<and> \<not> claimed_formula_char (of_char (CHR ''D''))
   \<and> evaluateFormula host_utc (js ''{a}; DROP TABLE'') [(js ''a'', JNum (Fin 1))] [] = JNull
   \<and> evaluated host_utc (js ''{a}; DROP TABLE'') [(js ''a'', JNum (Fin 1))] [] = []
   \<and> evaluateFormula_run
        (host_utc\<lparr>run_expr := (\<lambda>x. if whitelist_test x then run_literal x else Some (JNum (Fin 1)))\<rparr>)
        (js ''{a}; DROP TABLE'') [(js ''a'', JNum (Fin 1))] []
      = evaluateFormula_run host_utc (js ''{a}; DROP TABLE'') [(js ''a'', JNum (Fin 1))] []
   \<and> evaluateFormula host_utc (js ''{ A }'') [(js ''a'', JStr (js ''7.0''))] [] = JNum (Fin 7)
   \<and> evaluated host_utc (js ''{ A }'') [(js ''a'', JStr (js ''7.0''))] [] = [js ''7'']
   \<and> list_all claimed_formula_char (js ''7'')
   \<and> run_expr host_utc (js ''7'') = Some (JNum (Fin 7))"
proof -
  let ?ev = "\<lambda>x. if whitelist_test x then run_literal x else Some (JNum (Fin 1))"
  let ?row = "[(js ''a'', JStr (js ''7.0''))]"
  have d: "\<not> claimed_formula_char (of_char (CHR ''D''))"
    by (simp add: claimed_formula_char_def is_ws_def)
  have bad: "\<exists>c\<in>set (js ''1; DROP TABLE''). \<not> claimed_formula_char c"
    using d by (simp add: js_def)
  have same: "\<forall>x. x \<noteq> [] \<and> (\<forall>c\<in>set x. claimed_formula_char c) \<longrightarrow> ?ev x = run_expr host_utc x"
    by (simp add: whitelist_test_iff host_utc_fields)
  have seven: "evaluateFormula host_utc (js ''{ A }'') ?row [] = JNum (Fin 7)"
    by (rule example_reference)
  have sub: "substitute host_utc ?row [] (columnRefs (js ''{ A }'')) (js ''{ A }'') = Some (js ''7'')"
    by (simp add: js_def formula_simps parse_simps host_utc_fields Let_def cong: let_weak_cong)
  have ne: "js ''{ A }'' \<noteq> []" by (simp add: js_def)
  from formula_whitelist [of host_utc "js ''{a}; DROP TABLE''" "[(js ''a'', JNum (Fin 1))]" "[]"
      "js ''1; DROP TABLE''" ?ev] example_injection bad same
  have a: "evaluateFormula host_utc (js ''{a}; DROP TABLE'') [(js ''a'', JNum (Fin 1))] [] = JNull
    \<and> evaluated host_utc (js ''{a}; DROP TABLE'') [(js ''a'', JNum (Fin 1))] [] = []
    \<and> evaluateFormula_run (host_utc\<lparr>run_expr := ?ev\<rparr>) (js ''{a}; DROP TABLE'')
         [(js ''a'', JNum (Fin 1))] []
       = evaluateFormula_run host_utc (js ''{a}; DROP TABLE'') [(js ''a'', JNum (Fin 1))] []"
    by blast
  from formula_whitelist [of host_utc "js ''{ A }''" ?row "[]" "js ''7''" "run_expr host_utc"]
  have b: "(\<forall>x\<in>set (evaluated host_utc (js ''{ A }'') ?row []).
              x \<noteq> [] \<and> (\<forall>c\<in>set x. claimed_formula_char c))
     \<and> (evaluateFormula host_utc (js ''{ A }'') ?row [] \<noteq> JNull
         \<longrightarrow> (\<exists>x. evaluated host_utc (js ''{ A }'') ?row [] = [x]
                \<and> run_expr host_utc x = Some (evaluateFormula host_utc (js ''{ A }'') ?row [])))
     \<and> (js ''{ A }'' \<noteq> []
          \<and> substitute host_utc ?row [] (columnRefs (js ''{ A }'')) (js ''{ A }'') = Some (js ''7'')
          \<and> js ''7'' \<noteq> [] \<and> (\<forall>c\<in>set (js ''7''). claimed_formula_char c)
         \<longrightarrow> evaluated host_utc (js ''{ A }'') ?row [] = [js ''7''])"
    by blast
  have c7: "js ''7'' \<noteq> [] \<and> (\<forall>c\<in>set (js ''7''). claimed_formula_char c)"
    by (simp add: js_def claimed_formula_char_def)
  from b ne sub c7 have e: "evaluated host_utc (js ''{ A }'') ?row [] = [js ''7'']"
    by blast
  from b e seven have r: "run_expr host_utc (js ''7'') = Some (JNum (Fin 7))"
    by simp
  from c7 have l: "list_all claimed_formula_char (js ''7'')"
    by (simp add: list_all_iff)
  from example_injection d a seven e l r show ?thesis by blast
qed

lemma substitute_fails:
  "ref \<in> set refs \<Longrightarrow>
   lookupValue h row cm (trim (butlast (tl ref))) = None
     \<or> lookupValue h row cm (trim (butlast (tl ref))) = Some NaN \<Longrightarrow>
   substitute h row cm refs e = None"
proof (induction refs arbitrary: e)
  case Nil
  then show ?case by simp
next
  case (Cons a refs)
  show ?case
  proof (cases "a = ref")
    case True
    with Cons.prems(2) show ?thesis by (auto simp: isNaN_def)
  next
    case False
    with Cons.prems(1) have "ref \<in> set refs" by simp
    from Cons.IH [OF this Cons.prems(2)] show ?thesis
      by (auto split: option.splits)
  qed
qed

lemma find_mapping_matches:
  "find (\<lambda>(fld, cfg). config_column cfg = Some name \<or> config_label cfg = Some name \<or> fld = name) cm
     = find (mapping_matches name) cm"
  by (rule find_cong) (auto simp: mapping_matches_def)

text \<open>
  Claim C4, as stated, has a formula evaluate to \<open>null\<close> only when a reference has no
  numeric value at any of the three stages. The stages are alternatives for a key that is
  not found, not for a value that is not numeric: the row has the key \<open>sales\<close> with the
  cell \<open>n/a\<close>, the mapping sends the field \<open>sales\<close> to the column \<open>Revenue\<close>, which
  holds 100, and the formula is \<open>null\<close>; without the key \<open>sales\<close> in the row it is 100.
\<close>

theorem formula_stages_counterexample:
  "columnRefs (js ''{sales}'') = [js ''{sales}'']
   \<and> lookup_mapping host_utc
        [(js ''sales'', JStr (js ''n/a'')), (js ''Revenue'', JNum (Fin 100))]
        [(js ''sales'', CfgObject (Some (js ''Revenue'')) None)] (js ''sales'')
      = Some (Fin 100)
   \<and> evaluateFormula host_utc (js ''{sales}'')
        [(js ''sales'', JStr (js ''n/a'')), (js ''Revenue'', JNum (Fin 100))]
        [(js ''sales'', CfgObject (Some (js ''Revenue'')) None)]
      = JNull
   \<and> evaluateFormula host_utc (js ''{sales}'')
        [(js ''Revenue'', JNum (Fin 100))]
        [(js ''sales'', CfgObject (Some (js ''Revenue'')) None)]
      = JNum (Fin 100)"
proof -
  have a: "columnRefs (js ''{sales}'') = [js ''{sales}'']"
    by (simp add: js_def)
  have b: "lookup_mapping host_utc
        [(js ''sales'', JStr (js ''n/a'')), (js ''Revenue'', JNum (Fin 100))]
        [(js ''sales'', CfgObject (Some (js ''Revenue'')) None)] (js ''sales'')
      = Some (Fin 100)"
    by (simp add: js_def formula_simps parse_simps host_utc_fields Let_def cong: let_weak_cong)
  have c: "evaluateFormula host_utc (js ''{sales}'')
        [(js ''sales'', JStr (js ''n/a'')), (js ''Revenue'', JNum (Fin 100))]
        [(js ''sales'', CfgObject (Some (js ''Revenue'')) None)]
      = JNull"
    by (simp add: js_def formula_simps parse_simps host_utc_fields Let_def cong: let_weak_cong)
  have d: "evaluateFormula host_utc (js ''{sales}'')
        [(js ''Revenue'', JNum (Fin 100))]
        [(js ''sales'', CfgObject (Some (js ''Revenue'')) None)]
      = JNum (Fin 100)"
    by (simp add: js_def formula_simps parse_simps host_utc_fields Let_def whitelist_test_iff
        claimed_formula_char_def cong: let_weak_cong)
  from a b c d show ?thesis by blast
qed

text \<open>
  Claim C4, amended: a reference is resolved at the first stage at which a key is found:
  the exact key of the row; otherwise the first key of the row equal to the reference in
  lower case; otherwise the first entry of the mapping whose column, label or field key
  is the reference text, through that entry's column when the row has it. The value is
  the float parsed from the cell found. When a reference of the formula finds no cell,
  or a cell that is not numeric, the formula evaluates to \<open>null\<close>; a numeric value
  replaces the reference in the expression.
\<close>

theorem reference_resolution:
  "lookupValue h row cm name =
     (if has_own row name then Some (parseFloat h (get_prop row name))
      else case find (\<lambda>key. toLowerCase h key = toLowerCase h name) (map fst row) of
          Some key \<Rightarrow> Some (parseFloat h (get_prop row key))
        | None \<Rightarrow>
            (case find (mapping_matches name) cm of
                None \<Rightarrow> None
              | Some entry \<Rightarrow>
                  if has_own row (actual_column (snd entry) name)
                  then Some (parseFloat h (get_prop row (actual_column (snd entry) name)))
                  else None))
   \<and> (ref \<in> set (columnRefs formula)
        \<and> (lookupValue h row cm (trim (butlast (tl ref))) = None
             \<or> lookupValue h row cm (trim (butlast (tl ref))) = Some NaN)
       \<longrightarrow> evaluateFormula h formula row cm = JNull)
   \<and> (\<not> has_own row (js ''hasOwnProperty'')
        \<and> lookupValue h row cm (trim (butlast (tl ref))) = Some v \<and> v \<noteq> NaN
       \<longrightarrow> substitute h row cm (ref # refs) e =
             substitute h row cm refs (replace_all ref (num_toString h v) e))"
proof (intro conjI impI)
  show "lookupValue h row cm name =
     (if has_own row name then Some (parseFloat h (get_prop row name))
      else case find (\<lambda>key. toLowerCase h key = toLowerCase h name) (map fst row) of
          Some key \<Rightarrow> Some (parseFloat h (get_prop row key))
        | None \<Rightarrow>
            (case find (mapping_matches name) cm of
                None \<Rightarrow> None
              | Some entry \<Rightarrow>
                  if has_own row (actual_column (snd entry) name)
                  then Some (parseFloat h (get_prop row (actual_column (snd entry) name)))
                  else None))"
    by (auto simp: lookupValue_def lookup_row_def lookup_mapping_def find_mapping_matches
        actual_column_def Let_def split: option.splits prod.splits)
next
  assume "ref \<in> set (columnRefs formula)
        \<and> (lookupValue h row cm (trim (butlast (tl ref))) = None
             \<or> lookupValue h row cm (trim (butlast (tl ref))) = Some NaN)"
  then have "substitute h row cm (columnRefs formula) formula = None"
    using substitute_fails by blast
  then show "evaluateFormula h formula row cm = JNull"
    by (simp add: evaluateFormula_unfold)
next
  assume "\<not> has_own row (js ''hasOwnProperty'')
        \<and> lookupValue h row cm (trim (butlast (tl ref))) = Some v \<and> v \<noteq> NaN"
  then show "substitute h row cm (ref # refs) e =
             substitute h row cm refs (replace_all ref (num_toString h v) e)"
    by (simp add: isNaN_def)
qed

theorem reference_resolution_witness:
  "js ''{sales}'' \<in> set (columnRefs (js ''{sales}''))
   \<and> lookupValue host_utc
        [(js ''sales'', JStr (js ''n/a'')), (js ''Revenue'', JNum (Fin 100))]
        [(js ''sales'', CfgObject (Some (js ''Revenue'')) None)] (js ''sales'') = Some NaN
   \<and> evaluateFormula host_utc (js ''{sales}'')
        [(js ''sales'', JStr (js ''n/a'')), (js ''Revenue'', JNum (Fin 100))]
        [(js ''sales'', CfgObject (Some (js ''Revenue'')) None)] = JNull
   \<and> lookupValue host_utc [(js ''Revenue'', JNum (Fin 100))]
        [(js ''sales'', CfgObject (Some (js ''Revenue'')) None)] (js ''sales'') = Some (Fin 100)
   \<and> substitute host_utc [(js ''Revenue'', JNum (Fin 100))]
        [(js ''sales'', CfgObject (Some (js ''Revenue'')) None)] [js ''{sales}''] (js ''{sales}'')
      = substitute host_utc [(js ''Revenue'', JNum (Fin 100))]
          [(js ''sales'', CfgObject (Some (js ''Revenue'')) None)] []
          (replace_all (js ''{sales}'') (num_toString host_utc (Fin 100)) (js ''{sales}''))"
proof -
  let ?cm = "[(js ''sales'', CfgObject (Some (js ''Revenue'')) None)]"
  let ?row1 = "[(js ''sales'', JStr (js ''n/a'')), (js ''Revenue'', JNum (Fin 100))]"
  let ?row2 = "[(js ''Revenue'', JNum (Fin 100))]"
  have name: "trim (butlast (tl (js ''{sales}''))) = js ''sales''"
    by (simp add: js_def trim_def is_ws_def)
  have r: "js ''{sales}'' \<in> set (columnRefs (js ''{sales}''))"
    by (simp add: js_def)
  have l1: "lookupValue host_utc ?row1 ?cm (js ''sales'') = Some NaN"
    by (simp add: js_def formula_simps parse_simps host_utc_fields Let_def cong: let_weak_cong)
  have l2: "lookupValue host_utc ?row2 ?cm (js ''sales'') = Some (Fin 100)"
    by (simp add: js_def formula_simps parse_simps host_utc_fields Let_def cong: let_weak_cong)
  have o: "\<not> has_own ?row2 (js ''hasOwnProperty'')"
    by (simp add: js_def has_own_def)
  have l1': "lookupValue host_utc ?row1 ?cm (trim (butlast (tl (js ''{sales}'')))) = Some NaN"
    by (simp only: name l1)
  have l2': "lookupValue host_utc ?row2 ?cm (trim (butlast (tl (js ''{sales}''))))
               = Some (Fin 100)"
    by (simp only: name l2)
  have n: "Fin 100 \<noteq> NaN" by simp
  from reference_resolution [of host_utc ?row1 ?cm "js ''sales''" "js ''{sales}''"
      "js ''{sales}''" "Fin 100" "[]" "js ''{sales}''"] r l1'
  have a: "evaluateFormula host_utc (js ''{sales}'') ?row1 ?cm = JNull"
    by blast
  from reference_resolution [of host_utc ?row2 ?cm "js ''sales''" "js ''{sales}''"
      "js ''{sales}''" "Fin 100" "[]" "js ''{sales}''"] o l2' n
  have b: "substitute host_utc ?row2 ?cm [js ''{sales}''] (js ''{sales}'')
      = substitute host_utc ?row2 ?cm []
          (replace_all (js ''{sales}'') (num_toString host_utc (Fin 100)) (js ''{sales}''))"
    by blast
  from r l1 a l2 b show ?thesis by blast
qed

section \<open>Claims on the column type detector\<close>





subsection \<open>The classification of the specification and the loop\<close>








subsection \<open>ISO dates\<close>









lemmas detect_simps = detectColumnType_def sampleValues_def count_value_def String_of_def
  str_includes_def is_number_def num_of_def js_le_def js_lt_def currency_class_def
  datePatterns_def rx_digits_def rx_lit_def is_alpha_def reaches_def js_div_count_def

lemmas claimed_simps = claimed_type_def category_count_def claimed_category_def
  in_unit_interval_def in_serial_range_def claimed_currency_glyph_def claimed_date_text_def
  claimed_iso_pattern_def claimed_separated_pattern_def claimed_month_name_pattern_def
  claimed_strip_class_def at_least_60_percent_def String_of_def rx_digits_def rx_lit_def
  is_alpha_def

text \<open>
  The strip class of the number test has no yen sign, unlike the class of the currency
  test two statements before it: a yen sign inside a value, here in \<open>-\<yen>5\<close>, is not
  stripped, and the column that the specification types as number is typed as text.
\<close>

lemma yen_inside_value:
  "claimed_type host_utc [JStr [45, 165, 53]] = TNumber
   \<and> detectColumnType host_utc [JStr [45, 165, 53]] = TText"
proof -
  have a: "claimed_type host_utc [JStr [45, 165, 53]] = TNumber"
    by (simp add: js_def claimed_simps parse_simps Let_def cong: let_weak_cong)
  have b: "detectColumnType host_utc [JStr [45, 165, 53]] = TText"
    by (simp add: js_def detect_simps parse_simps Let_def cong: let_weak_cong)
  from a b show ?thesis by blast
qed




section \<open>Claims on the date parser\<close>

lemma calendar_day_of_serial_one:
  "YearFromDay (- 25568) = 1899" "MonthFromDay (- 25568) = 11" "DateFromDay (- 25568) = 31"
  by (simp_all add: YearFromDay_def year_search_unfold DayFromYear_def MonthFromDay_def
      DateFromDay_def DayWithinYear_def InLeapYear_def month_starts_def Let_def
      cong: let_weak_cong)

text \<open>
  Claim C2 has the serial number 1 parsed to 1900-01-01, as the comment in \<open>parseDate\<close>
  says (\<open>Serial number 1 = 1900-01-01\<close>). The epoch of the code is 30 December 1899 and
  the serial number is added to it in days: in every time zone of constant offset the
  serial number 1 is parsed to 31 December 1899, local time.
\<close>

theorem serial_one_is_1899_12_31:
  assumes "\<bar>tzOffset h\<bar> \<le> 86400000"
  shows "parseDate h (JNum (Fin 1)) = Some (- 2209075200000 - tzOffset h)
         \<and> local_ymd h (- 2209075200000 - tzOffset h) = (1899, 11, 31)
         \<and> format_yyyy_MM_dd h (- 2209075200000 - tzOffset h) = js ''1899-12-31''"
proof -
  let ?t = "- 2209075200000 - tzOffset h"
  have epoch: "Date_local h 1899 11 30 = Some (- 2209161600000 - tzOffset h)"
    using assms
    by (simp add: Date_local_def MakeDay_def DayFromYear_def InLeapYear_def month_starts_def
        msPerDay_def Date_of_num_def Let_def flip: of_int_diff)
       (simp add: abs_if split: if_splits)
  have "js_add (getTime (Some (- 2209161600000 - tzOffset h))) (js_mul (Fin 1) (Fin (24 * 60 * 60 * 1000)))
          = Fin (of_int ?t)"
    by (simp add: getTime_def js_add_def js_mul_def)
  moreover have "Date_of_num (Fin (of_int ?t)) = Some ?t"
    using assms by (simp add: Date_of_num_def abs_if flip: of_int_diff split: if_splits)
  ultimately have p: "parseDate h (JNum (Fin 1)) = Some ?t"
    by (simp add: parseDate_def falsy_def epoch Let_def)
  have d: "local_day h ?t = - 25568"
    by (simp add: local_day_def msPerDay_def)
  have ymd: "local_ymd h ?t = (1899, 11, 31)"
    by (simp add: local_ymd_def getFullYear_def getMonth_def getDate_def d
        calendar_day_of_serial_one)
  have f: "format_yyyy_MM_dd h ?t = js ''1899-12-31''"
    by (simp add: format_yyyy_MM_dd_def fmt_yyyy_def fmt_MM_def fmt_dd_def getFullYear_def
        getMonth_def getDate_def d calendar_day_of_serial_one addLeadingZeros_def dec.simps
        js_def Let_def cong: let_weak_cong)
  from p ymd f show ?thesis by blast
qed

theorem serial_one_is_1899_12_31_witness:
  "\<bar>tzOffset host_utc\<bar> \<le> 86400000
   \<and> parseDate host_utc (JNum (Fin 1)) = Some (- 2209075200000)
   \<and> local_ymd host_utc (- 2209075200000) = (1899, 11, 31)
   \<and> format_yyyy_MM_dd host_utc (- 2209075200000) = js ''1899-12-31''"
proof -
  have a: "\<bar>tzOffset host_utc\<bar> \<le> 86400000" by (simp add: host_utc_fields)
  from serial_one_is_1899_12_31 [OF a] a show ?thesis
    by (simp add: host_utc_fields)
qed

end
